theory Spec2Isabelle
  imports Main
begin

section \<open>Python values, objects and the store\<close>

text \<open>
  The program of \<^verbatim>\<open>app.py\<close> handles decoded JSON: \<^verbatim>\<open>None\<close>, booleans, integers and
  strings are immutable and are modelled as immediate values; lists, dictionaries and the
  \<^verbatim>\<open>JsCode\<close> wrapper of \<^verbatim>\<open>st_aggrid\<close> are objects of a store and are handled through
  references, as in Python. A \<^verbatim>\<open>JsCode\<close> object is modelled by the source text it is
  constructed from. All dictionary keys of the program and of decoded JSON are strings.
  JSON numbers are modelled as Python integers (the documented feed has no fractional
  numbers and no claim is about them).
\<close>

type_synonym addr = nat

datatype pyval = VNone | VBool bool | VInt int | VStr string | VRef addr

datatype pyobj = OList "pyval list" | ODict "(string \<times> pyval) list" | OJsCode string

type_synonym heap = "pyobj list"

text \<open>The content of a value, read through the store: a tree without sharing.\<close>

datatype pytree =
    TNone
  | TBool bool
  | TInt int
  | TStr string
  | TList "pytree list"
  | TDict "(string \<times> pytree) list"
  | TJsCode string

text \<open>
  The exceptions. \<open>Transport x\<close> is the exception named \<open>x\<close> that an HTTP library raises
  when it obtains no response; the other constructors carry the names of the Python
  exceptions they stand for.
\<close>

datatype error =
    Transport string
  | JSONDecodeError
  | HTTPError nat
  | KeyError string
  | ValueError
  | NotImplementedError
  | TypeError
  | OtherError string

definition alloc :: "pyobj \<Rightarrow> heap \<Rightarrow> pyval \<times> heap" where
  "alloc ob h = (VRef (length h), h @ [ob])"

fun obj_at :: "heap \<Rightarrow> pyval \<Rightarrow> pyobj option" where
  "obj_at h (VRef p) = (if p < length h then Some (h ! p) else None)"
| "obj_at h v = None"

text \<open>
  Evaluating a display (a list or dictionary literal) or materialising a decoded JSON
  document creates the inner objects first, left to right, and the container last.
\<close>

fun build :: "pytree \<Rightarrow> heap \<Rightarrow> pyval \<times> heap"
  and build_list :: "pytree list \<Rightarrow> heap \<Rightarrow> pyval list \<times> heap"
  and build_items :: "(string \<times> pytree) list \<Rightarrow> heap \<Rightarrow> (string \<times> pyval) list \<times> heap"
where
  "build TNone h = (VNone, h)"
| "build (TBool b) h = (VBool b, h)"
| "build (TInt i) h = (VInt i, h)"
| "build (TStr s) h = (VStr s, h)"
| "build (TJsCode s) h = alloc (OJsCode s) h"
| "build (TList ts) h = (case build_list ts h of (vs, h1) \<Rightarrow> alloc (OList vs) h1)"
| "build (TDict kts) h = (case build_items kts h of (kvs, h1) \<Rightarrow> alloc (ODict kvs) h1)"
| "build_list [] h = ([], h)"
| "build_list (t # ts) h =
     (case build t h of (v, h1) \<Rightarrow>
      case build_list ts h1 of (vs, h2) \<Rightarrow> (v # vs, h2))"
| "build_items [] h = ([], h)"
| "build_items ((k, t) # kts) h =
     (case build t h of (v, h1) \<Rightarrow>
      case build_items kts h1 of (kvs, h2) \<Rightarrow> ((k, v) # kvs, h2))"

text \<open>\<open>repr h v t\<close>: in the store \<open>h\<close>, the value \<open>v\<close> has the content \<open>t\<close>.\<close>

inductive repr :: "heap \<Rightarrow> pyval \<Rightarrow> pytree \<Rightarrow> bool"
  and repr_list :: "heap \<Rightarrow> pyval list \<Rightarrow> pytree list \<Rightarrow> bool"
  and repr_items :: "heap \<Rightarrow> (string \<times> pyval) list \<Rightarrow> (string \<times> pytree) list \<Rightarrow> bool"
where
  repr_None: "repr h VNone TNone"
| repr_Bool: "repr h (VBool b) (TBool b)"
| repr_Int: "repr h (VInt i) (TInt i)"
| repr_Str: "repr h (VStr s) (TStr s)"
| repr_JsCode: "obj_at h (VRef p) = Some (OJsCode s) \<Longrightarrow> repr h (VRef p) (TJsCode s)"
| repr_List: "obj_at h (VRef p) = Some (OList vs) \<Longrightarrow> repr_list h vs ts \<Longrightarrow> repr h (VRef p) (TList ts)"
| repr_Dict: "obj_at h (VRef p) = Some (ODict kvs) \<Longrightarrow> repr_items h kvs kts \<Longrightarrow> repr h (VRef p) (TDict kts)"
| repr_Nil: "repr_list h [] []"
| repr_Cons: "repr h v t \<Longrightarrow> repr_list h vs ts \<Longrightarrow> repr_list h (v # vs) (t # ts)"
| repr_INil: "repr_items h [] []"
| repr_ICons: "repr h v t \<Longrightarrow> repr_items h kvs kts \<Longrightarrow> repr_items h ((k, v) # kvs) ((k, t) # kts)"


section \<open>\<^verbatim>\<open>build_grid_options\<close>\<close>

text \<open>
  The literal parts of the \<^verbatim>\<open>gridOptions\<close> dictionary (lines 52 to 103 of
  \<^verbatim>\<open>app.py\<close>), as the contents of the objects that evaluating them creates.
\<close>

definition get_detail_source :: string where
  "get_detail_source =
     ''function (params) {'' @ [CHR 0x0A] @
     ''            params.successCallback(params.data.callRecords);'' @ [CHR 0x0A] @
     ''        }''"

definition minutes_formatter :: string where
  "minutes_formatter = ''x.toLocaleString() + '' @ [CHR 0x27] @ ''m'' @ [CHR 0x27]"

definition duration_formatter :: string where
  "duration_formatter = ''x.toLocaleString() + '' @ [CHR 0x27] @ ''s'' @ [CHR 0x27]"

definition master_column_defs :: pytree where
  "master_column_defs = TList [
     TDict [(''field'', TStr ''name''),
            (''cellRenderer'', TStr ''agGroupCellRenderer''),
            (''checkboxSelection'', TBool True)],
     TDict [(''field'', TStr ''account'')],
     TDict [(''field'', TStr ''calls'')],
     TDict [(''field'', TStr ''minutes''), (''valueFormatter'', TStr minutes_formatter)]]"

definition default_col_def :: pytree where
  "default_col_def = TDict [(''flex'', TInt 1)]"

definition detail_column_defs :: pytree where
  "detail_column_defs = TList [
     TDict [(''field'', TStr ''callId''), (''checkboxSelection'', TBool True)],
     TDict [(''field'', TStr ''direction'')],
     TDict [(''field'', TStr ''number''), (''minWidth'', TInt 150)],
     TDict [(''field'', TStr ''duration''), (''valueFormatter'', TStr duration_formatter)],
     TDict [(''field'', TStr ''switchCode''), (''minWidth'', TInt 150)]]"

definition detail_grid_options :: pytree where
  "detail_grid_options = TDict [
     (''rowSelection'', TStr ''multiple''),
     (''suppressRowClickSelection'', TBool True),
     (''enableRangeSelection'', TBool True),
     (''pagination'', TBool True),
     (''paginationAutoPageSize'', TBool True),
     (''columnDefs'', detail_column_defs),
     (''defaultColDef'', TDict [(''sortable'', TBool True), (''flex'', TInt 1)])]"

text \<open>The orphan row that \<^verbatim>\<open>build_grid_options\<close> appends (lines 93 to 102).\<close>

definition grid_orphan_details :: "pytree list" where
  "grid_orphan_details = [
     TDict [(''callId'', TStr ''orphan1''), (''direction'', TStr ''outbound''),
            (''number'', TStr ''1234567890''), (''duration'', TInt 0),
            (''switchCode'', TStr ''N/A'')],
     TDict [(''callId'', TStr ''orphan2''), (''direction'', TStr ''inbound''),
            (''number'', TStr ''0987654321''), (''duration'', TInt 0),
            (''switchCode'', TStr ''N/A'')]]"

definition grid_orphan_row :: pytree where
  "grid_orphan_row = TDict [
     (''name'', TStr ''Orphans''),
     (''account'', TInt 0),
     (''calls'', TInt 0),
     (''minutes'', TInt 0),
     (''callRecords'', TList grid_orphan_details)]"

text \<open>
  Python's \<^verbatim>\<open>a + b\<close> as the program uses it, with a list on the right: a new list object
  when \<^verbatim>\<open>a\<close> is a list, \<^verbatim>\<open>TypeError\<close> for every other left operand (\<^verbatim>\<open>None\<close>, a number, a
  string, a dictionary). The operands are not modified.
\<close>

definition list_add :: "heap \<Rightarrow> pyval \<Rightarrow> pyval \<Rightarrow> error + (pyval \<times> heap)" where
  "list_add h a b =
     (case (obj_at h a, obj_at h b) of
        (Some (OList xs), Some (OList ys)) \<Rightarrow> Inr (alloc (OList (xs @ ys)) h)
      | _ \<Rightarrow> Inl TypeError)"

text \<open>
  \<^verbatim>\<open>build_grid_options(data_json)\<close>: the objects are created in Python's evaluation
  order; the dictionary \<^verbatim>\<open>gridOptions\<close> is created last and returned.
\<close>

definition build_grid_options :: "heap \<Rightarrow> pyval \<Rightarrow> (error + pyval) \<times> heap" where
  "build_grid_options h data_json =
     (case alloc (OJsCode get_detail_source) h of (get_detail_js, h1) \<Rightarrow>
      case build master_column_defs h1 of (columnDefs, h2) \<Rightarrow>
      case build default_col_def h2 of (defaultColDef, h3) \<Rightarrow>
      case build detail_grid_options h3 of (detailGridOptions, h4) \<Rightarrow>
      case alloc (ODict [(''detailGridOptions'', detailGridOptions),
                         (''getDetailRowData'', get_detail_js)]) h4 of (params, h5) \<Rightarrow>
      case build (TList [grid_orphan_row]) h5 of (orphans, h6) \<Rightarrow>
      case list_add h6 data_json orphans of
        Inl e \<Rightarrow> (Inl e, h6)
      | Inr (rowData, h7) \<Rightarrow>
          (case alloc (ODict [(''masterDetail'', VBool True),
                              (''rowSelection'', VStr ''single''),
                              (''columnDefs'', columnDefs),
                              (''defaultColDef'', defaultColDef),
                              (''detailCellRendererParams'', params),
                              (''rowData'', rowData)]) h7 of
             (gridOptions, h8) \<Rightarrow> (Inr gridOptions, h8)))"

text \<open>The dictionary object that the call creates last, by its entries.\<close>

definition grid_options_object :: "pyval \<Rightarrow> pyval \<Rightarrow> pyval \<Rightarrow> pyval \<Rightarrow> pyobj" where
  "grid_options_object cd dc pr rd =
     ODict [(''masterDetail'', VBool True),
            (''rowSelection'', VStr ''single''),
            (''columnDefs'', cd),
            (''defaultColDef'', dc),
            (''detailCellRendererParams'', pr),
            (''rowData'', rd)]"

text \<open>The content of the dictionary that a call on a list of content \<open>rows\<close> returns.\<close>

definition grid_options_tree :: "pytree list \<Rightarrow> pytree" where
  "grid_options_tree rows = TDict [
     (''masterDetail'', TBool True),
     (''rowSelection'', TStr ''single''),
     (''columnDefs'', master_column_defs),
     (''defaultColDef'', default_col_def),
     (''detailCellRendererParams'', TDict [
        (''detailGridOptions'', detail_grid_options),
        (''getDetailRowData'', TJsCode get_detail_source)]),
     (''rowData'', TList (rows @ [grid_orphan_row]))]"

text \<open>Subscripting, on objects (\<^verbatim>\<open>d[k]\<close>) and on contents.\<close>

definition getitem :: "heap \<Rightarrow> pyval \<Rightarrow> string \<Rightarrow> pyval option" where
  "getitem h d k = (case obj_at h d of Some (ODict kvs) \<Rightarrow> map_of kvs k | _ \<Rightarrow> None)"

fun tree_get :: "pytree \<Rightarrow> string \<Rightarrow> pytree option" where
  "tree_get (TDict kts) k = map_of kts k"
| "tree_get t k = None"

text \<open>Streamlit runs the script again on every interaction: \<open>n\<close> successive builds on the same list.\<close>

fun rebuild :: "nat \<Rightarrow> heap \<Rightarrow> pyval \<Rightarrow> heap" where
  "rebuild 0 h data_json = h"
| "rebuild (Suc n) h data_json = rebuild n (snd (build_grid_options h data_json)) data_json"

section \<open>The value formatters\<close>

text \<open>
  The two \<^verbatim>\<open>valueFormatter\<close> entries are JavaScript expressions that ag-Grid evaluates in
  the browser with \<^verbatim>\<open>x\<close> bound to the cell's value. The program calls
  \<^verbatim>\<open>toLocaleString()\<close> without a locale, so the locale of the host decides how the digits
  are grouped. Two host locales are modelled, for integers: \<^verbatim>\<open>en-US\<close> separates groups of
  three digits by a comma, \<^verbatim>\<open>de-DE\<close> by a full stop.
\<close>

datatype js_locale = EnUS | DeDE

fun group_separator :: "js_locale \<Rightarrow> string" where
  "group_separator EnUS = '',''"
| "group_separator DeDE = ''.''"

definition digit :: "nat \<Rightarrow> char" where
  "digit n = ''0123456789'' ! (n mod 10)"

fun decimal :: "nat \<Rightarrow> string" where
  "decimal n = (if n < 10 then [digit n] else decimal (n div 10) @ [digit n])"

fun grouped :: "string \<Rightarrow> nat \<Rightarrow> string" where
  "grouped sep n =
     (if n < 1000 then decimal n
      else grouped sep (n div 1000) @ sep @
           [digit (n div 100), digit (n div 10), digit n])"

definition toLocaleString :: "js_locale \<Rightarrow> int \<Rightarrow> string" where
  "toLocaleString host x =
     (if x < 0 then ''-'' @ grouped (group_separator host) (nat (- x))
      else grouped (group_separator host) (nat x))"

text \<open>
  A JavaScript number is a double: the model covers the integers it represents exactly.
\<close>

definition safe_integer :: "int \<Rightarrow> bool" where
  "safe_integer x = (- (2 ^ 53) < x \<and> x < 2 ^ 53)"

text \<open>
  Evaluating, in a host, a formatter expression of the form
  \<^verbatim>\<open>x.toLocaleString() + '...'\<close>, the only form the program uses, on a safe integer;
  \<open>None\<close> for any other expression or value.
\<close>

definition eval_formatter :: "js_locale \<Rightarrow> string \<Rightarrow> int \<Rightarrow> string option" where
  "eval_formatter host src x =
     (let prefix = ''x.toLocaleString() + '' @ [CHR 0x27];
          rest = drop (length prefix) src
      in if take (length prefix) src = prefix \<and> rest \<noteq> [] \<and> last rest = CHR 0x27
            \<and> CHR 0x27 \<notin> set (butlast rest) \<and> safe_integer x
         then Some (toLocaleString host x @ butlast rest)
         else None)"

text \<open>The formatter of the column definition for \<open>field\<close> in a list of column definitions.\<close>

fun column_formatter :: "pytree \<Rightarrow> string \<Rightarrow> string option" where
  "column_formatter (TList (c # cs)) field =
     (if tree_get c ''field'' = Some (TStr field)
      then (case tree_get c ''valueFormatter'' of Some (TStr src) \<Rightarrow> Some src | _ \<Rightarrow> None)
      else column_formatter (TList cs) field)"
| "column_formatter t field = None"

section \<open>\<^verbatim>\<open>load_data\<close>\<close>

text \<open>
  The network is a parameter: the outcome of the \<open>k\<close>-th request the process makes, for
  the URL it asks, as the library that makes the request reports it. Either the library
  obtains no response (the connection is refused or dropped, the redirections do not end)
  and raises an exception of its own, which the outcome names; or it obtains a final
  response, after the redirections it follows, with a status and a body. The body either
  decodes as JSON (with Python's decoder) or is malformed.
\<close>

datatype body = Malformed | Decoded pytree

datatype outcome = NetworkFailure string | Response nat body

type_synonym world = "nat \<Rightarrow> string \<Rightarrow> outcome"

text \<open>
  A pandas frame is its list of rows; a row lists the columns it has a value for, and a
  column missing from a row reads as NaN. A cell of the final frame is a decoded value or,
  in column \<^verbatim>\<open>callRecords\<close>, a frame of its own.
\<close>

type_synonym frame = "(string \<times> pytree) list list"

datatype cell = Scalar pytree | Frame frame

type_synonym dataframe = "(string \<times> cell) list list"

text \<open>
  pandas is a library, not part of the repository. The model fixes what the program relies
  on: a JSON array of objects becomes one row per object, in order; \<^verbatim>\<open>json_normalize\<close>
  of a list of objects gives one row per object, in order, and raises
  \<^verbatim>\<open>NotImplementedError\<close> on a scalar or NaN; subscripting a missing column raises
  \<^verbatim>\<open>KeyError\<close>. What pandas does with a document of another shape, with a list that holds
  something else than objects, how it flattens one call record, and how its type
  inference converts the value of a cell (given the whole frame and the column), are
  parameters. A cell of \<^verbatim>\<open>callRecords\<close> that is a list or an object is never converted.
  pandas decodes the body with a decoder of its own, which reads integers into 64 bits:
  an integer of the signed 64-bit range is decoded as it is, and what happens to any other
  integer (an exception, or another value) is a parameter too.
\<close>

record pandas =
  frame_of_other :: "pytree \<Rightarrow> error + frame"
  normalize_record :: "(string \<times> pytree) list \<Rightarrow> (string \<times> pytree) list"
  convert_cell :: "frame \<Rightarrow> string \<Rightarrow> pytree \<Rightarrow> pytree"
  big_int :: "int \<Rightarrow> int option"
  normalize_other :: "pytree list \<Rightarrow> error + frame"

fun is_dict :: "pytree \<Rightarrow> bool" where
  "is_dict (TDict kts) = True"
| "is_dict t = False"

fun items :: "pytree \<Rightarrow> (string \<times> pytree) list" where
  "items (TDict kts) = kts"
| "items t = []"

fun map_result :: "('a \<Rightarrow> error + 'b) \<Rightarrow> 'a list \<Rightarrow> error + 'b list" where
  "map_result f [] = Inr []"
| "map_result f (x # xs) =
     (case f x of
        Inl e \<Rightarrow> Inl e
      | Inr y \<Rightarrow> (case map_result f xs of Inl e \<Rightarrow> Inl e | Inr ys \<Rightarrow> Inr (y # ys)))"

definition int64 :: "int \<Rightarrow> bool" where
  "int64 i = (- (2 ^ 63) \<le> i \<and> i < 2 ^ 63)"

text \<open>The decoder of pandas: \<open>None\<close> when it raises \<^verbatim>\<open>ValueError\<close>.\<close>

fun ujson_loads :: "pandas \<Rightarrow> pytree \<Rightarrow> pytree option"
  and ujson_list :: "pandas \<Rightarrow> pytree list \<Rightarrow> pytree list option"
  and ujson_items :: "pandas \<Rightarrow> (string \<times> pytree) list \<Rightarrow> (string \<times> pytree) list option"
where
  "ujson_loads pd TNone = Some TNone"
| "ujson_loads pd (TBool b) = Some (TBool b)"
| "ujson_loads pd (TInt i) = (if int64 i then Some (TInt i) else map_option TInt (big_int pd i))"
| "ujson_loads pd (TStr s) = Some (TStr s)"
| "ujson_loads pd (TJsCode s) = Some (TJsCode s)"
| "ujson_loads pd (TList ts) = map_option TList (ujson_list pd ts)"
| "ujson_loads pd (TDict kts) = map_option TDict (ujson_items pd kts)"
| "ujson_list pd [] = Some []"
| "ujson_list pd (t # ts) =
     (case ujson_loads pd t of
        None \<Rightarrow> None
      | Some t' \<Rightarrow> (case ujson_list pd ts of None \<Rightarrow> None | Some ts' \<Rightarrow> Some (t' # ts')))"
| "ujson_items pd [] = Some []"
| "ujson_items pd ((k, t) # kts) =
     (case ujson_loads pd t of
        None \<Rightarrow> None
      | Some t' \<Rightarrow>
          (case ujson_items pd kts of None \<Rightarrow> None | Some kts' \<Rightarrow> Some ((k, t') # kts')))"

text \<open>The documents whose integers are all of the signed 64-bit range.\<close>

fun plain :: "pytree \<Rightarrow> bool"
  and plain_list :: "pytree list \<Rightarrow> bool"
  and plain_items :: "(string \<times> pytree) list \<Rightarrow> bool"
where
  "plain (TInt i) = int64 i"
| "plain (TList ts) = plain_list ts"
| "plain (TDict kts) = plain_items kts"
| "plain TNone = True"
| "plain (TBool b) = True"
| "plain (TStr s) = True"
| "plain (TJsCode s) = True"
| "plain_list [] = True"
| "plain_list (t # ts) = (plain t \<and> plain_list ts)"
| "plain_items [] = True"
| "plain_items ((k, t) # kts) = (plain t \<and> plain_items kts)"

definition ok_status :: "nat \<Rightarrow> bool" where
  "ok_status s = (200 \<le> s \<and> s < 300)"

text \<open>
  \<^verbatim>\<open>requests.get(url)\<close> raises when it obtains no response and returns the final response
  otherwise, whatever its status: the program does not call \<^verbatim>\<open>raise_for_status\<close>.
\<close>

definition requests_get :: "world \<Rightarrow> string \<Rightarrow> nat \<Rightarrow> (error + nat \<times> body) \<times> nat" where
  "requests_get w url t =
     (case w t url of
        NetworkFailure x \<Rightarrow> (Inl (Transport x), Suc t)
      | Response status b \<Rightarrow> (Inr (status, b), Suc t))"

definition response_json :: "nat \<times> body \<Rightarrow> error + pytree" where
  "response_json response =
     (case snd response of Malformed \<Rightarrow> Inl JSONDecodeError | Decoded doc \<Rightarrow> Inr doc)"

text \<open>The frame that pandas builds from the document it has decoded.\<close>

definition frame_of :: "pandas \<Rightarrow> pytree \<Rightarrow> error + frame" where
  "frame_of pd doc =
     (case doc of
        TList xs \<Rightarrow> if list_all is_dict xs then Inr (map items xs) else frame_of_other pd doc
      | _ \<Rightarrow> frame_of_other pd doc)"

text \<open>
  \<^verbatim>\<open>pd.read_json(url)\<close> requests the URL again, through \<^verbatim>\<open>urllib\<close>. When \<^verbatim>\<open>urllib\<close>
  obtains no response, the exception it raises (or lets through) propagates; a final
  response with a status outside 200 to 299 makes it raise \<^verbatim>\<open>HTTPError\<close> with that status.
  Otherwise pandas decodes the body with its own decoder and builds the frame.
\<close>

definition read_json :: "pandas \<Rightarrow> world \<Rightarrow> string \<Rightarrow> nat \<Rightarrow> (error + frame) \<times> nat" where
  "read_json pd w url t =
     (case w t url of
        NetworkFailure x \<Rightarrow> (Inl (Transport x), Suc t)
      | Response status b \<Rightarrow>
          if ok_status status
          then (case b of
                  Malformed \<Rightarrow> (Inl ValueError, Suc t)
                | Decoded doc \<Rightarrow>
                    (case ujson_loads pd doc of
                       None \<Rightarrow> (Inl ValueError, Suc t)
                     | Some doc' \<Rightarrow> (frame_of pd doc', Suc t)))
          else (Inl (HTTPError status), Suc t))"

definition json_normalize :: "pandas \<Rightarrow> pytree option \<Rightarrow> error + frame" where
  "json_normalize pd x =
     (case x of
        None \<Rightarrow> Inl NotImplementedError
      | Some (TList xs) \<Rightarrow>
          if list_all is_dict xs then Inr (map (\<lambda>r. normalize_record pd (items r)) xs)
          else normalize_other pd xs
      | Some (TDict kts) \<Rightarrow> Inr [normalize_record pd kts]
      | Some _ \<Rightarrow> Inl NotImplementedError)"

definition has_column :: "frame \<Rightarrow> string \<Rightarrow> bool" where
  "has_column df c = list_ex (\<lambda>row. c \<in> set (map fst row)) df"

definition with_call_records ::
  "pandas \<Rightarrow> frame \<Rightarrow> (string \<times> pytree) list \<Rightarrow> frame \<Rightarrow> (string \<times> cell) list" where
  "with_call_records pd df row f =
     map (\<lambda>(c, v). (c, if c = ''callRecords'' then Frame f
                         else Scalar (convert_cell pd df c v))) row"

text \<open>
  Line 20: \<^verbatim>\<open>df["callRecords"] = df["callRecords"].apply(lambda x: pd.json_normalize(x))\<close>.
\<close>

definition normalize_call_records :: "pandas \<Rightarrow> frame \<Rightarrow> error + dataframe" where
  "normalize_call_records pd df =
     (if \<not> has_column df ''callRecords'' then Inl (KeyError ''callRecords'')
      else map_result
             (\<lambda>row. case json_normalize pd (map_of row ''callRecords'') of
                       Inl e \<Rightarrow> Inl e
                     | Inr f \<Rightarrow> Inr (with_call_records pd df row f))
             df)"

text \<open>Lines 23 to 32: the one-row frame \<^verbatim>\<open>pd.DataFrame(orphaned_records)\<close>.\<close>

definition orphaned_details :: frame where
  "orphaned_details = [
     [(''callId'', TStr ''orphan1''), (''direction'', TStr ''outbound''),
      (''number'', TStr ''1234567890''), (''duration'', TInt 0), (''switchCode'', TStr ''N/A'')],
     [(''callId'', TStr ''orphan2''), (''direction'', TStr ''inbound''),
      (''number'', TStr ''0987654321''), (''duration'', TInt 0), (''switchCode'', TStr ''N/A'')]]"

definition orphaned_row :: "(string \<times> cell) list" where
  "orphaned_row = [
     (''name'', Scalar (TStr ''Orphaned Record'')),
     (''account'', Scalar (TStr ''N/A'')),
     (''calls'', Scalar (TInt 0)),
     (''minutes'', Scalar (TInt 0)),
     (''callRecords'', Frame orphaned_details)]"

definition orphaned_records :: dataframe where
  "orphaned_records = [orphaned_row]"

text \<open>Line 33: \<^verbatim>\<open>pd.concat([df, pd.DataFrame(orphaned_records)], ignore_index=True)\<close>.\<close>

definition concat_frames :: "dataframe \<Rightarrow> dataframe \<Rightarrow> dataframe" where
  "concat_frames df1 df2 = df1 @ df2"

text \<open>
  The body of \<^verbatim>\<open>load_data\<close>, from the request counter \<open>t\<close>: the result (the frame and the
  raw decoded document) or the exception, and the request counter afterwards. The raw
  document is decoded from the first response, the frame is read from the second; the
  orphan is appended to the frame only.
\<close>

definition load_data ::
  "pandas \<Rightarrow> world \<Rightarrow> string \<Rightarrow> nat \<Rightarrow> (error + dataframe \<times> pytree) \<times> nat" where
  "load_data pd w url t =
     (case requests_get w url t of
        (Inl e, t1) \<Rightarrow> (Inl e, t1)
      | (Inr response, t1) \<Rightarrow>
     (case response_json response of
        Inl e \<Rightarrow> (Inl e, t1)
      | Inr data \<Rightarrow>
     (case read_json pd w url t1 of
        (Inl e, t2) \<Rightarrow> (Inl e, t2)
      | (Inr df, t2) \<Rightarrow>
     (case normalize_call_records pd df of
        Inl e \<Rightarrow> (Inl e, t2)
      | Inr df' \<Rightarrow> (Inr (concat_frames df' orphaned_records, data), t2)))))"

text \<open>
  The feed the program is written for: a JSON array of objects, each with a
  \<^verbatim>\<open>callRecords\<close> array of objects; and the row that the \<open>i\<close>-th object is expected to
  become, with its call records converted element by element.
\<close>

definition call_records :: "pytree \<Rightarrow> pytree list" where
  "call_records x =
     (case map_of (items x) ''callRecords'' of Some (TList cs) \<Rightarrow> cs | _ \<Rightarrow> [])"

definition well_formed_record :: "pytree \<Rightarrow> bool" where
  "well_formed_record x =
     (is_dict x \<and>
      (case map_of (items x) ''callRecords'' of
         Some (TList cs) \<Rightarrow> list_all is_dict cs
       | _ \<Rightarrow> False))"

definition master_record :: "pandas \<Rightarrow> pytree list \<Rightarrow> pytree \<Rightarrow> (string \<times> cell) list" where
  "master_record pd feed x =
     with_call_records pd (map items feed) (items x)
       (map (\<lambda>r. normalize_record pd (items r)) (call_records x))"

definition lacks_call_records :: "pytree \<Rightarrow> bool" where
  "lacks_call_records x = (''callRecords'' \<notin> set (map fst (items x)))"


text \<open>An instance of the pandas parameters for flat records, used in the examples.\<close>

definition flat_pandas :: pandas where
  "flat_pandas = \<lparr>frame_of_other = (\<lambda>doc. Inl ValueError),
                   normalize_record = (\<lambda>r. r),
                   convert_cell = (\<lambda>df c v. v),
                   big_int = (\<lambda>i. if 2 ^ 63 \<le> i \<and> i < 2 ^ 64 then Some i else None),
                   normalize_other = (\<lambda>xs. Inl TypeError)\<rparr>"

section \<open>The cache\<close>

record session =
  cache :: "string \<rightharpoonup> dataframe \<times> pytree"
  clock :: nat
  loads :: "string \<Rightarrow> nat"

text \<open>
  Modelled from the spec: the memoisation that the decorator \<^verbatim>\<open>st.cache_data\<close> of the
  Streamlit library puts around \<^verbatim>\<open>load_data\<close> is not in the repository. Following the
  spec's cache contract, the first call for a URL runs the loader and stores its result, a
  later call returns the stored value without running the loader, and a load that raises
  stores nothing. \<open>loads\<close> counts, for every URL, the executions of the loader's body.
\<close>

definition get_or_load ::
  "pandas \<Rightarrow> world \<Rightarrow> string \<Rightarrow> session \<Rightarrow> (error + dataframe \<times> pytree) \<times> session" where
  "get_or_load pd w url s =
     (case cache s url of
        Some v \<Rightarrow> (Inr v, s)
      | None \<Rightarrow>
          (case load_data pd w url (clock s) of
             (Inl e, t) \<Rightarrow>
               (Inl e, s\<lparr>clock := t, loads := (loads s)(url := Suc (loads s url))\<rparr>)
           | (Inr v, t) \<Rightarrow>
               (Inr v, s\<lparr>cache := (cache s)(url \<mapsto> v), clock := t,
                         loads := (loads s)(url := Suc (loads s url))\<rparr>)))"

text \<open>An example: a feed with one master and one call record, served with status 200.\<close>

definition sample_master :: pytree where
  "sample_master = TDict [
     (''name'', TStr ''Ada''),
     (''account'', TInt 177000),
     (''calls'', TInt 1),
     (''minutes'', TInt 2),
     (''callRecords'', TList [
        TDict [(''callId'', TStr ''c1''), (''direction'', TStr ''inbound''),
               (''number'', TStr ''5550100''), (''duration'', TInt 120),
               (''switchCode'', TStr ''SW1'')]])]"

definition sample_world :: world where
  "sample_world = (\<lambda>k url. Response 200 (Decoded (TList [sample_master])))"

text \<open>The state of a process that has loaded nothing yet.\<close>

definition new_session :: session where
  "new_session = \<lparr>cache = Map.empty, clock = 0, loads = (\<lambda>url. 0)\<rparr>"

text \<open>Calls in sequence, one for each URL of a list: the results in order, and the final state.\<close>

fun get_or_load_seq ::
  "pandas \<Rightarrow> world \<Rightarrow> string list \<Rightarrow> session
     \<Rightarrow> (error + dataframe \<times> pytree) list \<times> session" where
  "get_or_load_seq pd w [] s = ([], s)"
| "get_or_load_seq pd w (url # urls) s =
     (case get_or_load pd w url s of (r, s1) \<Rightarrow>
      case get_or_load_seq pd w urls s1 of (rs, s2) \<Rightarrow> (r # rs, s2))"






definition empty_after_malformed :: world where
  "empty_after_malformed = (\<lambda>k url. if k = 0 then Response 200 Malformed
                                     else Response 200 (Decoded (TList [])))"

definition bare_master :: pytree where
  "bare_master = TDict [(''name'', TStr ''Bob''), (''account'', TInt 177001)]"

section \<open>Properties of the store\<close>

lemma obj_at_append: "obj_at h v = Some ob \<Longrightarrow> obj_at (h @ e) v = Some ob"
  by (cases v) (auto simp: nth_append split: if_splits)

lemma repr_append:
  "repr h v t \<Longrightarrow> repr (h @ e) v t"
  "repr_list h vs ts \<Longrightarrow> repr_list (h @ e) vs ts"
  "repr_items h kvs kts \<Longrightarrow> repr_items (h @ e) kvs kts"
  by (induction rule: repr_repr_list_repr_items.inducts)
     (blast intro: repr_repr_list_repr_items.intros dest: obj_at_append)+

lemma build_extends:
  "\<exists>e. snd (build t h) = h @ e"
  "\<exists>e. snd (build_list ts h) = h @ e"
  "\<exists>e. snd (build_items kts h) = h @ e"
  by (induction t h and ts h and kts h rule: build_build_list_build_items.induct)
     (auto simp: alloc_def split: prod.splits)

lemma build_repr:
  "repr (snd (build t h)) (fst (build t h)) t"
  "repr_list (snd (build_list ts h)) (fst (build_list ts h)) ts"
  "repr_items (snd (build_items kts h)) (fst (build_items kts h)) kts"
proof (induction t h and ts h and kts h rule: build_build_list_build_items.induct)
  case (6 ts h)
  obtain vs h1 where b: "build_list ts h = (vs, h1)" by (cases "build_list ts h")
  with 6 have "repr_list h1 vs ts" by simp
  then have "repr_list (h1 @ [OList vs]) vs ts" by (rule repr_append)
  then show ?case using b by (auto simp: alloc_def intro!: repr_List)
next
  case (7 kts h)
  obtain kvs h1 where b: "build_items kts h = (kvs, h1)" by (cases "build_items kts h")
  with 7 have "repr_items h1 kvs kts" by simp
  then have "repr_items (h1 @ [ODict kvs]) kvs kts" by (rule repr_append)
  then show ?case using b by (auto simp: alloc_def intro!: repr_Dict)
next
  case (9 t ts h)
  obtain v h1 where b1: "build t h = (v, h1)" by (cases "build t h")
  obtain vs h2 where b2: "build_list ts h1 = (vs, h2)" by (cases "build_list ts h1")
  from build_extends(2)[of ts h1] b2 obtain e where e: "h2 = h1 @ e" by auto
  from 9(1) b1 have "repr h1 v t" by simp
  then have "repr h2 v t" unfolding e by (rule repr_append)
  moreover from 9(2)[OF b1[symmetric]] b1 b2 have "repr_list h2 vs ts" by simp
  ultimately show ?case using b1 b2 by (simp add: repr_Cons)
next
  case (11 k t kts h)
  obtain v h1 where b1: "build t h = (v, h1)" by (cases "build t h")
  obtain kvs h2 where b2: "build_items kts h1 = (kvs, h2)" by (cases "build_items kts h1")
  from build_extends(3)[of kts h1] b2 obtain e where e: "h2 = h1 @ e" by auto
  from 11(1) b1 have "repr h1 v t" by simp
  then have "repr h2 v t" unfolding e by (rule repr_append)
  moreover from 11(2)[OF b1[symmetric]] b1 b2 have "repr_items h2 kvs kts" by simp
  ultimately show ?case using b1 b2 by (simp add: repr_ICons)
qed (auto simp: alloc_def intro: repr_repr_list_repr_items.intros)

lemma build_step:
  obtains v e where "build t h = (v, h @ e)" and "repr (h @ e) v t"
proof -
  obtain v h1 where b: "build t h = (v, h1)" by (cases "build t h")
  from build_extends(1)[of t h] b obtain e where "h1 = h @ e" by auto
  moreover from build_repr(1)[of t h] b have "repr h1 v t" by simp
  ultimately show ?thesis using b that by blast
qed

inductive_cases repr_TNoneE: "repr h v TNone"
inductive_cases repr_TBoolE: "repr h v (TBool b)"
inductive_cases repr_TIntE: "repr h v (TInt i)"
inductive_cases repr_TStrE: "repr h v (TStr s)"
inductive_cases repr_TJsCodeE: "repr h v (TJsCode s)"
inductive_cases repr_TListE: "repr h v (TList ts)"
inductive_cases repr_TDictE: "repr h v (TDict kts)"
inductive_cases repr_list_NilE: "repr_list h [] ts"
inductive_cases repr_list_ConsE: "repr_list h (v # vs) ts"
inductive_cases repr_items_NilE: "repr_items h [] kts"
inductive_cases repr_items_ConsE: "repr_items h (kv # kvs) kts"
inductive_cases repr_list_Nil2E: "repr_list h vs []"
inductive_cases repr_list_Cons2E: "repr_list h vs (t # ts)"

lemma repr_list_append:
  "repr_list h vs ts \<Longrightarrow> repr_list h ws us \<Longrightarrow> repr_list h (vs @ ws) (ts @ us)"
  by (induction vs arbitrary: ts)
     (auto elim!: repr_list_NilE repr_list_ConsE intro!: repr_Cons)

text \<open>The content of a value is unique.\<close>

lemma repr_unique:
  "repr h v t \<Longrightarrow> repr h v t' \<Longrightarrow> t = t'"
  "repr_list h vs ts \<Longrightarrow> repr_list h vs ts' \<Longrightarrow> ts = ts'"
  "repr_items h kvs kts \<Longrightarrow> repr_items h kvs kts' \<Longrightarrow> kts = kts'"
proof (induction arbitrary: t' and ts' and kts' rule: repr_repr_list_repr_items.inducts)
  case (repr_JsCode h p s)
  then show ?case by (auto elim: repr.cases)
next
  case (repr_List h p vs ts)
  from repr_List.prems repr_List.hyps(1) show ?case
    by (cases rule: repr.cases) (auto dest: repr_List.IH)
next
  case (repr_Dict h p kvs kts)
  from repr_Dict.prems repr_Dict.hyps(1) show ?case
    by (cases rule: repr.cases) (auto dest: repr_Dict.IH)
next
  case (repr_Cons h v t vs ts)
  from repr_Cons.prems show ?case
    by (auto elim!: repr_list_ConsE dest: repr_Cons.IH)
next
  case (repr_ICons h v t kvs kts k)
  from repr_ICons.prems show ?case
    by (auto elim!: repr_items_ConsE dest: repr_ICons.IH)
qed (auto elim: repr.cases repr_list.cases repr_items.cases)

section \<open>Properties of \<^verbatim>\<open>build_grid_options\<close>\<close>

lemma build_grid_options_steps:
  obtains cd dc pr orph e where
    "build_grid_options h d =
       (case list_add (h @ e) d orph of
          Inl err \<Rightarrow> (Inl err, h @ e)
        | Inr (rd, h7) \<Rightarrow> (Inr (VRef (length h7)), h7 @ [grid_options_object cd dc pr rd]))"
    "repr (h @ e) cd master_column_defs"
    "repr (h @ e) dc default_col_def"
    "repr (h @ e) pr (TDict [(''detailGridOptions'', detail_grid_options),
                             (''getDetailRowData'', TJsCode get_detail_source)])"
    "repr (h @ e) orph (TList [grid_orphan_row])"
proof -
  define h1 where "h1 = h @ [OJsCode get_detail_source]"
  define js where "js = VRef (length h)"
  have a1: "alloc (OJsCode get_detail_source) h = (js, h1)"
    by (simp add: alloc_def js_def h1_def)
  have r1: "repr h1 js (TJsCode get_detail_source)"
    by (auto simp: js_def h1_def intro!: repr_JsCode)
  obtain cd e2 where b2: "build master_column_defs h1 = (cd, h1 @ e2)"
    and r2: "repr (h1 @ e2) cd master_column_defs" by (rule build_step)
  obtain dc e3 where b3: "build default_col_def (h1 @ e2) = (dc, h1 @ e2 @ e3)"
    and r3: "repr (h1 @ e2 @ e3) dc default_col_def"
    using build_step[of default_col_def "h1 @ e2"] by auto
  obtain dg e4 where b4: "build detail_grid_options (h1 @ e2 @ e3) = (dg, h1 @ e2 @ e3 @ e4)"
    and r4: "repr (h1 @ e2 @ e3 @ e4) dg detail_grid_options"
    using build_step[of detail_grid_options "h1 @ e2 @ e3"] by auto
  define h4 where "h4 = h1 @ e2 @ e3 @ e4"
  define pr where "pr = VRef (length h4)"
  define pobj where "pobj = ODict [(''detailGridOptions'', dg), (''getDetailRowData'', js)]"
  define h5 where "h5 = h4 @ [pobj]"
  have a5: "alloc pobj h4 = (pr, h5)" by (simp add: alloc_def pr_def h5_def)
  have r1': "repr h5 js (TJsCode get_detail_source)"
    using repr_append(1)[OF r1, of "e2 @ e3 @ e4 @ [pobj]"] by (simp add: h5_def h4_def)
  have r4': "repr h5 dg detail_grid_options"
    using repr_append(1)[OF r4, of "[pobj]"] by (simp add: h5_def h4_def)
  have r5: "repr h5 pr (TDict [(''detailGridOptions'', detail_grid_options),
                               (''getDetailRowData'', TJsCode get_detail_source)])"
    unfolding pr_def
    apply (rule repr_Dict[where kvs="[(''detailGridOptions'', dg), (''getDetailRowData'', js)]"])
     apply (simp add: h5_def pobj_def)
    apply (intro repr_ICons repr_INil r1' r4')
    done
  obtain orph e6 where b6: "build (TList [grid_orphan_row]) h5 = (orph, h5 @ e6)"
    and r6: "repr (h5 @ e6) orph (TList [grid_orphan_row])" by (rule build_step)
  define h6 where "h6 = h5 @ e6"
  define e where "e = [OJsCode get_detail_source] @ e2 @ e3 @ e4 @ [pobj] @ e6"
  have h6: "h6 = h @ e"
    by (simp add: h6_def h5_def h4_def h1_def e_def)
  have run: "build_grid_options h d =
       (case list_add h6 d orph of
          Inl err \<Rightarrow> (Inl err, h6)
        | Inr (rd, h7) \<Rightarrow> (Inr (VRef (length h7)), h7 @ [grid_options_object cd dc pr rd]))"
    unfolding build_grid_options_def grid_options_object_def
    using a1 b2 b3 b4 a5 b6
    by (simp del: build.simps
          add: h4_def[symmetric] pobj_def[symmetric] h6_def[symmetric] alloc_def
          split: sum.splits prod.splits)
  have c2: "repr h6 cd master_column_defs"
    using repr_append(1)[OF r2, of "e3 @ e4 @ [pobj] @ e6"]
    by (simp add: h6_def h5_def h4_def)
  have c3: "repr h6 dc default_col_def"
    using repr_append(1)[OF r3, of "e4 @ [pobj] @ e6"]
    by (simp add: h6_def h5_def h4_def)
  have c5: "repr h6 pr (TDict [(''detailGridOptions'', detail_grid_options),
                               (''getDetailRowData'', TJsCode get_detail_source)])"
    using repr_append(1)[OF r5, of e6] by (simp add: h6_def)
  show ?thesis
    using that run c2 c3 c5 r6 unfolding h6 h6_def[symmetric] by blast
qed


lemma build_grid_options_list:
  assumes d: "obj_at h d = Some (OList vs)"
  shows "\<exists>g e rd orow.
      build_grid_options h d = (Inr g, h @ e)
    \<and> getitem (h @ e) g ''rowData'' = Some (VRef rd)
    \<and> length h \<le> rd
    \<and> obj_at (h @ e) (VRef rd) = Some (OList (vs @ [orow]))
    \<and> repr (h @ e) orow grid_orphan_row
    \<and> (\<forall>ts. repr_list h vs ts \<longrightarrow> repr (h @ e) g (grid_options_tree ts))"
proof -
  obtain cd dc pr orph e6 where
    run: "build_grid_options h d =
       (case list_add (h @ e6) d orph of
          Inl err \<Rightarrow> (Inl err, h @ e6)
        | Inr (rd, h7) \<Rightarrow> (Inr (VRef (length h7)), h7 @ [grid_options_object cd dc pr rd]))"
    and r2: "repr (h @ e6) cd master_column_defs"
    and r3: "repr (h @ e6) dc default_col_def"
    and r5: "repr (h @ e6) pr (TDict [(''detailGridOptions'', detail_grid_options),
                             (''getDetailRowData'', TJsCode get_detail_source)])"
    and r6: "repr (h @ e6) orph (TList [grid_orphan_row])"
    by (rule build_grid_options_steps)
  define h6 where "h6 = h @ e6"
  from r6 obtain os where o: "obj_at h6 orph = Some (OList os)"
    and os: "repr_list h6 os [grid_orphan_row]"
    by (auto simp: h6_def elim: repr_TListE)
  from os obtain orow where os_eq: "os = [orow]" and orow: "repr h6 orow grid_orphan_row"
    by (auto elim!: repr_list_Cons2E repr_list_Nil2E)
  have d6: "obj_at h6 d = Some (OList vs)" unfolding h6_def by (rule obj_at_append[OF d])
  define rd where "rd = length h6"
  define h7 where "h7 = h6 @ [OList (vs @ [orow])]"
  define gobj where "gobj = grid_options_object cd dc pr (VRef rd)"
  define g where "g = VRef (length h7)"
  define h8 where "h8 = h7 @ [gobj]"
  define e where "e = e6 @ [OList (vs @ [orow]), gobj]"
  have a7: "list_add h6 d orph = Inr (VRef rd, h7)"
    by (simp add: list_add_def d6 o alloc_def rd_def h7_def os_eq)
  have h8: "h8 = h @ e" by (simp add: h8_def h7_def h6_def e_def)
  have ext: "h8 = h6 @ [OList (vs @ [orow]), gobj]" by (simp add: h8_def h7_def)
  have run': "build_grid_options h d = (Inr g, h8)"
    using run a7 by (simp add: h6_def[symmetric] g_def h8_def gobj_def)
  have gi: "getitem h8 g ''rowData'' = Some (VRef rd)"
    by (simp add: getitem_def g_def h8_def gobj_def grid_options_object_def)
  have fresh: "length h \<le> rd" by (simp add: rd_def h6_def)
  have rdo: "obj_at h8 (VRef rd) = Some (OList (vs @ [orow]))"
    by (simp add: rd_def h8_def h7_def nth_append)
  have orow8: "repr h8 orow grid_orphan_row" unfolding ext by (rule repr_append(1)[OF orow])
  have c2: "repr h8 cd master_column_defs"
    using repr_append(1)[OF r2, of "[OList (vs @ [orow]), gobj]"] by (simp add: ext h6_def)
  have c3: "repr h8 dc default_col_def"
    using repr_append(1)[OF r3, of "[OList (vs @ [orow]), gobj]"] by (simp add: ext h6_def)
  have c5: "repr h8 pr (TDict [(''detailGridOptions'', detail_grid_options),
                               (''getDetailRowData'', TJsCode get_detail_source)])"
    using repr_append(1)[OF r5, of "[OList (vs @ [orow]), gobj]"] by (simp add: ext h6_def)
  have tree: "repr h8 g (grid_options_tree ts)" if vs: "repr_list h vs ts" for ts
  proof -
    have vs8: "repr_list h8 vs ts" unfolding h8 by (rule repr_append(2)[OF vs])
    have "repr_list h8 (vs @ [orow]) (ts @ [grid_orphan_row])"
      by (intro repr_list_append vs8 repr_Cons repr_Nil orow8)
    with rdo have c7: "repr h8 (VRef rd) (TList (ts @ [grid_orphan_row]))"
      by (rule repr_List)
    show ?thesis
      unfolding grid_options_tree_def g_def
      apply (rule repr_Dict[where kvs="[(''masterDetail'', VBool True),
                              (''rowSelection'', VStr ''single''),
                              (''columnDefs'', cd),
                              (''defaultColDef'', dc),
                              (''detailCellRendererParams'', pr),
                              (''rowData'', VRef rd)]"])
       apply (simp add: h8_def gobj_def grid_options_object_def)
      apply (intro repr_ICons repr_INil repr_Bool repr_Str c2 c3 c5 c7)
      done
  qed
  show ?thesis
    using run' gi fresh rdo orow8 tree unfolding h8 by blast
qed

lemma build_grid_options_extends: "\<exists>e. snd (build_grid_options h d) = h @ e"
proof -
  obtain cd dc pr orph e6 where
    run: "build_grid_options h d =
       (case list_add (h @ e6) d orph of
          Inl err \<Rightarrow> (Inl err, h @ e6)
        | Inr (rd, h7) \<Rightarrow> (Inr (VRef (length h7)), h7 @ [grid_options_object cd dc pr rd]))"
    and "repr (h @ e6) cd master_column_defs"
    by (rule build_grid_options_steps)
  show ?thesis
  proof (cases "list_add (h @ e6) d orph")
    case (Inl err)
    with run show ?thesis by simp
  next
    case (Inr r)
    then obtain xs ys where "r = (VRef (length (h @ e6)), (h @ e6) @ [OList (xs @ ys)])"
      by (auto simp: list_add_def alloc_def split: option.splits pyobj.splits)
    with run Inr show ?thesis by simp
  qed
qed

text \<open>A left operand that is not a list makes the call raise.\<close>

lemma build_grid_options_TypeError:
  assumes "\<And>p. d = VRef p \<Longrightarrow> p < length h" and "\<And>vs. obj_at h d \<noteq> Some (OList vs)"
  shows "fst (build_grid_options h d) = Inl TypeError"
proof -
  obtain cd dc pr orph e6 where
    run: "build_grid_options h d =
       (case list_add (h @ e6) d orph of
          Inl err \<Rightarrow> (Inl err, h @ e6)
        | Inr (rd, h7) \<Rightarrow> (Inr (VRef (length h7)), h7 @ [grid_options_object cd dc pr rd]))"
    and "repr (h @ e6) cd master_column_defs"
    by (rule build_grid_options_steps)
  have "obj_at (h @ e6) d = obj_at h d"
    using assms(1) by (cases d) (auto simp: nth_append)
  with assms(2) have "list_add (h @ e6) d orph = Inl TypeError"
    by (auto simp: list_add_def split: option.splits pyobj.splits)
  with run show ?thesis by simp
qed

lemma build_grid_options_frame:
  "p < length h \<Longrightarrow> snd (build_grid_options h d) ! p = h ! p"
  "length h \<le> length (snd (build_grid_options h d))"
  "obj_at h v = Some ob \<Longrightarrow> obj_at (snd (build_grid_options h d)) v = Some ob"
  using build_grid_options_extends[of h d] by (auto simp: nth_append dest: obj_at_append)

lemma rebuild_frame:
  "obj_at h v = Some ob \<Longrightarrow> obj_at (rebuild n h d) v = Some ob"
  by (induction n arbitrary: h) (auto dest: build_grid_options_frame(3))

lemma rebuild_extends: "\<exists>e. rebuild n h d = h @ e"
proof (induction n arbitrary: h)
  case 0
  show ?case by simp
next
  case (Suc n)
  obtain e1 where e1: "snd (build_grid_options h d) = h @ e1"
    using build_grid_options_extends by blast
  from Suc[of "h @ e1"] obtain e2 where "rebuild n (h @ e1) d = (h @ e1) @ e2" by blast
  with e1 show ?case by simp
qed

section \<open>Properties of \<^verbatim>\<open>load_data\<close> and of the cache\<close>

lemma map_result_all:
  "(\<And>x. x \<in> set xs \<Longrightarrow> f x = Inr (g x)) \<Longrightarrow> map_result f xs = Inr (map g xs)"
  by (induction xs) auto

lemma map_result_fails:
  "x \<in> set xs \<Longrightarrow> f x = Inl e \<Longrightarrow> \<exists>e'. map_result f xs = Inl e'"
  by (induction xs) (auto split: sum.splits)

lemma map_result_first_error:
  "(\<And>x. x \<in> set xs \<Longrightarrow> \<exists>y. f x = Inr y) \<Longrightarrow> f z = Inl e \<Longrightarrow>
   map_result f (xs @ z # zs) = Inl e"
proof (induction xs)
  case Nil
  then show ?case by simp
next
  case (Cons a xs)
  from Cons.prems(1)[of a] obtain y where "f a = Inr y" by auto
  moreover from Cons have "map_result f (xs @ z # zs) = Inl e" by simp
  ultimately show ?case by simp
qed

lemma map_result_length:
  "map_result f xs = Inr ys \<Longrightarrow> length ys = length xs"
  by (induction xs arbitrary: ys) (auto split: sum.splits)

text \<open>The decoder of pandas keeps a plain document and the shape of any document.\<close>

lemma ujson_plain:
  "plain t \<Longrightarrow> ujson_loads pd t = Some t"
  "plain_list ts \<Longrightarrow> ujson_list pd ts = Some ts"
  "plain_items kts \<Longrightarrow> ujson_items pd kts = Some kts"
  by (induction pd t and pd ts and pd kts rule: ujson_loads_ujson_list_ujson_items.induct) auto

lemma ujson_items_keys:
  "ujson_items pd kts = Some kts' \<Longrightarrow> map fst kts' = map fst kts"
  by (induction kts arbitrary: kts') (auto split: option.splits)

lemma ujson_dict:
  "is_dict x \<Longrightarrow> ujson_loads pd x = Some y \<Longrightarrow>
   is_dict y \<and> map fst (items y) = map fst (items x)"
  by (cases x) (auto dest: ujson_items_keys)

lemma ujson_list_shape:
  "ujson_list pd xs = Some ys \<Longrightarrow>
   length ys = length xs \<and> (\<forall>i<length xs. ujson_loads pd (xs ! i) = Some (ys ! i))"
proof (induction xs arbitrary: ys)
  case Nil
  then show ?case by simp
next
  case (Cons x xs)
  from Cons.prems obtain y ys' where y: "ujson_loads pd x = Some y"
    and ys': "ujson_list pd xs = Some ys'" and ys: "ys = y # ys'"
    by (auto split: option.splits)
  from Cons.IH[OF ys'] y ys show ?case by (auto simp: nth_Cons split: nat.splits)
qed

lemma ujson_feed:
  assumes "list_all is_dict xs" and "ujson_loads pd (TList xs) = Some doc"
  shows "\<exists>ys. doc = TList ys \<and> list_all is_dict ys \<and> length ys = length xs
            \<and> (\<forall>i<length xs. map fst (items (ys ! i)) = map fst (items (xs ! i)))"
proof -
  from assms(2) obtain ys where doc: "doc = TList ys" and ys: "ujson_list pd xs = Some ys"
    by auto
  from ujson_list_shape[OF ys] have len: "length ys = length xs"
    and each: "\<forall>i<length xs. ujson_loads pd (xs ! i) = Some (ys ! i)" by auto
  have "is_dict (ys ! i) \<and> map fst (items (ys ! i)) = map fst (items (xs ! i))"
    if "i < length xs" for i
    using that each assms(1) by (auto simp: list_all_length dest: ujson_dict)
  with doc len show ?thesis by (auto simp: list_all_length)
qed

lemma well_formed_record_row:
  assumes "well_formed_record x"
  shows "json_normalize pd (map_of (items x) ''callRecords'') =
           Inr (map (\<lambda>r. normalize_record pd (items r)) (call_records x))"
    and "''callRecords'' \<in> set (map fst (items x))"
proof -
  from assms obtain cs where cs: "map_of (items x) ''callRecords'' = Some (TList cs)"
    and all: "list_all is_dict cs"
    by (auto simp: well_formed_record_def split: option.splits pytree.splits)
  then show "json_normalize pd (map_of (items x) ''callRecords'') =
           Inr (map (\<lambda>r. normalize_record pd (items r)) (call_records x))"
    by (simp add: json_normalize_def call_records_def)
  from cs show "''callRecords'' \<in> set (map fst (items x))"
    by (auto dest: map_of_SomeD intro: rev_image_eqI)
qed

lemma normalize_well_formed:
  assumes "xs \<noteq> []" and "list_all well_formed_record xs"
  shows "normalize_call_records pd (map items xs) = Inr (map (master_record pd xs) xs)"
proof -
  from assms obtain x where x: "x \<in> set xs" by (cases xs) auto
  with assms(2) have "well_formed_record x" by (simp add: list_all_iff)
  then have "''callRecords'' \<in> set (map fst (items x))" by (rule well_formed_record_row(2))
  with x have col: "has_column (map items xs) ''callRecords''"
    by (auto simp: has_column_def list_ex_iff)
  have "map_result
          (\<lambda>row. case json_normalize pd (map_of row ''callRecords'') of
                    Inl e \<Rightarrow> Inl e
                  | Inr f \<Rightarrow> Inr (with_call_records pd (map items xs) row f))
          (map items xs)
        = Inr (map (\<lambda>row. with_call_records pd (map items xs) row
                 (map (\<lambda>r. normalize_record pd (items r))
                   (case map_of row ''callRecords'' of Some (TList cs) \<Rightarrow> cs | _ \<Rightarrow> [])))
               (map items xs))"
  proof (rule map_result_all)
    fix row assume "row \<in> set (map items xs)"
    then obtain y where y: "y \<in> set xs" and row: "row = items y" by auto
    with assms(2) have "well_formed_record y" by (simp add: list_all_iff)
    from well_formed_record_row(1)[OF this, of pd] row
    show "(case json_normalize pd (map_of row ''callRecords'') of
             Inl e \<Rightarrow> Inl e
           | Inr f \<Rightarrow> Inr (with_call_records pd (map items xs) row f))
          = Inr (with_call_records pd (map items xs) row
                 (map (\<lambda>r. normalize_record pd (items r))
                   (case map_of row ''callRecords'' of Some (TList cs) \<Rightarrow> cs | _ \<Rightarrow> [])))"
      by (simp add: call_records_def)
  qed
  with col show ?thesis
    by (simp add: normalize_call_records_def master_record_def call_records_def comp_def)
qed

lemma normalize_no_column:
  assumes "\<And>x. x \<in> set xs \<Longrightarrow> lacks_call_records x"
  shows "normalize_call_records pd (map items xs) = Inl (KeyError ''callRecords'')"
proof -
  have "\<not> has_column (map items xs) ''callRecords''"
    unfolding has_column_def list_ex_iff
  proof
    assume "\<exists>row\<in>set (map items xs). ''callRecords'' \<in> set (map fst row)"
    then obtain x where "x \<in> set xs" and "''callRecords'' \<in> set (map fst (items x))" by auto
    with assms[of x] show False by (simp add: lacks_call_records_def)
  qed
  then show ?thesis by (simp add: normalize_call_records_def)
qed

lemma normalize_missing_fails:
  assumes "x \<in> set xs" and "lacks_call_records x"
  shows "\<exists>e. normalize_call_records pd (map items xs) = Inl e"
proof (cases "has_column (map items xs) ''callRecords''")
  case False
  then show ?thesis by (simp add: normalize_call_records_def)
next
  case True
  from assms(2) have "map_of (items x) ''callRecords'' = None"
    by (simp add: lacks_call_records_def map_of_eq_None_iff)
  then have "(case json_normalize pd (map_of (items x) ''callRecords'') of
                Inl e \<Rightarrow> Inl e
              | Inr f \<Rightarrow> Inr (with_call_records pd (map items xs) (items x) f)) = Inl NotImplementedError"
    by (simp add: json_normalize_def)
  moreover from assms(1) have "items x \<in> set (map items xs)" by simp
  ultimately obtain e' where
    "map_result
       (\<lambda>row. case json_normalize pd (map_of row ''callRecords'') of
                 Inl e \<Rightarrow> Inl e
               | Inr f \<Rightarrow> Inr (with_call_records pd (map items xs) row f))
       (map items xs) = Inl e'"
    using map_result_fails[where f="\<lambda>row. case json_normalize pd (map_of row ''callRecords'') of
                 Inl e \<Rightarrow> Inl e
               | Inr f \<Rightarrow> Inr (with_call_records pd (map items xs) row f)"] by blast
  with True show ?thesis by (simp add: normalize_call_records_def)
qed

lemma normalize_first_missing:
  assumes "ys \<noteq> []" and "list_all well_formed_record ys" and "lacks_call_records x"
  shows "normalize_call_records pd (map items (ys @ x # zs)) = Inl NotImplementedError"
proof -
  from assms(1) obtain y where y: "y \<in> set ys" by (cases ys) auto
  with assms(2) have "well_formed_record y" by (simp add: list_all_iff)
  then have "''callRecords'' \<in> set (map fst (items y))" by (rule well_formed_record_row(2))
  with y have col: "has_column (map items (ys @ x # zs)) ''callRecords''"
    by (auto simp: has_column_def list_ex_iff)
  let ?f = "\<lambda>row. case json_normalize pd (map_of row ''callRecords'') of
                 Inl e \<Rightarrow> Inl e
               | Inr f \<Rightarrow> Inr (with_call_records pd (map items ys @ items x # map items zs) row f)"
  from assms(3) have "map_of (items x) ''callRecords'' = None"
    by (simp add: lacks_call_records_def map_of_eq_None_iff)
  then have bad: "?f (items x) = Inl NotImplementedError"
    by (simp add: json_normalize_def)
  have good: "\<exists>r. ?f row = Inr r" if "row \<in> set (map items ys)" for row
  proof -
    from that obtain y where "y \<in> set ys" and row: "row = items y" by auto
    with assms(2) have "well_formed_record y" by (simp add: list_all_iff)
    from well_formed_record_row(1)[OF this, of pd] row show ?thesis by simp
  qed
  have "map_result ?f (map items ys @ items x # map items zs) = Inl NotImplementedError"
  proof (rule map_result_first_error[where f="?f" and e=NotImplementedError])
    fix r assume "r \<in> set (map items ys)"
    then show "\<exists>y. ?f r = Inr y" by (rule good)
  next
    show "?f (items x) = Inl NotImplementedError" by (rule bad)
  qed
  with col show ?thesis by (simp add: normalize_call_records_def)
qed

lemma load_data_network_failure:
  "w t url = NetworkFailure x \<Longrightarrow> load_data pd w url t = (Inl (Transport x), Suc t)"
  by (simp add: load_data_def requests_get_def)

lemma load_data_malformed:
  "w t url = Response status Malformed \<Longrightarrow> load_data pd w url t = (Inl JSONDecodeError, Suc t)"
  by (simp add: load_data_def requests_get_def response_json_def)

lemma load_data_decoded:
  "w t url = Response status (Decoded data) \<Longrightarrow>
   load_data pd w url t =
     (case read_json pd w url (Suc t) of
        (Inl e, t2) \<Rightarrow> (Inl e, t2)
      | (Inr df, t2) \<Rightarrow>
          (case normalize_call_records pd df of
             Inl e \<Rightarrow> (Inl e, t2)
           | Inr df' \<Rightarrow> (Inr (df' @ [orphaned_row], data), t2)))"
  by (simp add: load_data_def requests_get_def response_json_def concat_frames_def
        orphaned_records_def split: prod.splits sum.splits)

lemma read_json_clock: "snd (read_json pd w url t) = Suc t"
  by (simp add: read_json_def split: outcome.splits body.splits option.splits)


text \<open>
  A load that returns has made two requests: the raw document is the first response's, and
  the frame is the normalized frame of the second, row for row, followed by the orphan row.
\<close>

lemma load_data_success:
  assumes "load_data pd w url t = (Inr (loaded, data), t')"
  shows "\<exists>status df masters.
           w t url = Response status (Decoded data)
         \<and> read_json pd w url (Suc t) = (Inr df, t')
         \<and> normalize_call_records pd df = Inr masters
         \<and> length masters = length df
         \<and> loaded = masters @ [orphaned_row]
         \<and> t' = t + 2"
proof (cases "w t url")
  case (NetworkFailure x)
  with assms show ?thesis by (simp add: load_data_network_failure)
next
  case (Response status b)
  show ?thesis
  proof (cases b)
    case Malformed
    with Response assms show ?thesis by (simp add: load_data_malformed)
  next
    case (Decoded doc)
    obtain r t2 where r: "read_json pd w url (Suc t) = (r, t2)"
      by (cases "read_json pd w url (Suc t)")
    with read_json_clock[of pd w url "Suc t"] have t2: "t2 = Suc (Suc t)" by simp
    from assms Response Decoded r obtain df masters where "r = Inr df"
      and n: "normalize_call_records pd df = Inr masters"
      and "loaded = masters @ [orphaned_row]" and "data = doc" and "t' = t2"
      by (auto simp: load_data_decoded split: sum.splits)
    moreover from n have "length masters = length df"
      by (auto simp: normalize_call_records_def dest: map_result_length split: if_splits)
    ultimately show ?thesis using Response Decoded r t2 by simp
  qed
qed

lemma read_json_plain_feed:
  assumes "w t url = Response status (Decoded (TList xs))" and "ok_status status"
    and "list_all is_dict xs" and "plain (TList xs)"
  shows "read_json pd w url t = (Inr (map items xs), Suc t)"
proof -
  from assms(4) have "ujson_loads pd (TList xs) = Some (TList xs)" by (rule ujson_plain(1))
  with assms(1,2,3) show ?thesis
    by (simp add: read_json_def frame_of_def del: ujson_loads.simps)
qed

lemma load_data_well_formed:
  assumes "w t url = Response status (Decoded data)"
    and "w (Suc t) url = Response status' (Decoded (TList xs))"
    and "ok_status status'" and "xs \<noteq> []" and "list_all well_formed_record xs"
    and "plain (TList xs)"
  shows "load_data pd w url t =
           (Inr (map (master_record pd xs) xs @ [orphaned_row], data), Suc (Suc t))"
proof -
  from assms(5) have "list_all is_dict xs"
    by (auto simp: list_all_iff well_formed_record_def)
  with assms(2,3,6) have "read_json pd w url (Suc t) = (Inr (map items xs), Suc (Suc t))"
    by (simp add: read_json_plain_feed del: plain.simps)
  with assms(1) normalize_well_formed[OF assms(4,5), of pd] show ?thesis
    by (simp add: load_data_decoded)
qed

lemma load_data_empty_array:
  assumes "w t url = Response status (Decoded data)"
    and "w (Suc t) url = Response status' (Decoded (TList []))" and "ok_status status'"
  shows "load_data pd w url t = (Inl (KeyError ''callRecords''), Suc (Suc t))"
  using assms
  by (simp add: load_data_decoded read_json_def frame_of_def normalize_call_records_def
        has_column_def)

text \<open>A feed in which an object lacks \<^verbatim>\<open>callRecords\<close> does not load, whatever pandas decodes.\<close>

lemma read_json_missing_fails:
  assumes "list_all is_dict xs" and "x \<in> set xs" and "lacks_call_records x"
    and "read_json pd w url t = (Inr df, t')"
    and "w t url = Response status (Decoded (TList xs))"
  shows "\<exists>e. normalize_call_records pd df = Inl e"
proof -
  from assms(4,5) obtain doc where dec: "ujson_loads pd (TList xs) = Some doc"
    and fr: "frame_of pd doc = Inr df"
    by (auto simp: read_json_def simp del: ujson_loads.simps split: if_splits option.splits)
  from ujson_feed[OF assms(1) dec] obtain ys where doc: "doc = TList ys"
    and dicts: "list_all is_dict ys" and len: "length ys = length xs"
    and keys: "\<forall>i<length xs. map fst (items (ys ! i)) = map fst (items (xs ! i))" by blast
  from fr doc dicts have df: "df = map items ys" by (simp add: frame_of_def)
  from assms(2) obtain i where i: "i < length xs" and x: "xs ! i = x"
    by (auto simp: in_set_conv_nth)
  with keys assms(3) have "lacks_call_records (ys ! i)"
    by (simp add: lacks_call_records_def)
  moreover from i len have "ys ! i \<in> set ys" by simp
  ultimately show ?thesis unfolding df by (rule normalize_missing_fails[rotated])
qed

lemma get_or_load_hit:
  "cache s url = Some v \<Longrightarrow> get_or_load pd w url s = (Inr v, s)"
  by (simp add: get_or_load_def)

lemma get_or_load_miss:
  "cache s url = None \<Longrightarrow>
   get_or_load pd w url s =
     (case load_data pd w url (clock s) of
        (Inl e, t) \<Rightarrow>
          (Inl e, s\<lparr>clock := t, loads := (loads s)(url := Suc (loads s url))\<rparr>)
      | (Inr v, t) \<Rightarrow>
          (Inr v, s\<lparr>cache := (cache s)(url \<mapsto> v), clock := t,
                    loads := (loads s)(url := Suc (loads s url))\<rparr>))"
  by (simp add: get_or_load_def)








section \<open>Examples and order preservation\<close>

lemma sample_master_well_formed: "well_formed_record sample_master"
  by (simp add: well_formed_record_def sample_master_def)

lemma sample_master_plain: "plain (TList [sample_master])"
  by (simp add: sample_master_def int64_def)

lemma sample_load:
  "load_data pd sample_world url t =
     (Inr ([master_record pd [sample_master] sample_master, orphaned_row], TList [sample_master]), Suc (Suc t))"
proof -
  have "load_data pd sample_world url t =
     (Inr (map (master_record pd [sample_master]) [sample_master] @ [orphaned_row], TList [sample_master]), Suc (Suc t))"
    by (rule load_data_well_formed[where status=200 and status'=200])
       (simp_all add: sample_world_def ok_status_def sample_master_well_formed
          sample_master_plain del: plain.simps)
  then show ?thesis by simp
qed

lemma small_store_repr:
  "repr [ODict [(''name'', VStr ''Ada'')], OList [VRef 0]] (VRef 1)
        (TList [TDict [(''name'', TStr ''Ada'')]])"
  by (rule repr_List[where vs="[VRef 0]"], simp,
      rule repr_Cons, rule repr_Dict[where kvs="[(''name'', VStr ''Ada'')]"], simp,
      intro repr_ICons repr_INil repr_Str, rule repr_Nil)

lemma map_of_with_call_records:
  "map_of (with_call_records pd df row f) c
     = map_option (\<lambda>v. if c = ''callRecords'' then Frame f else Scalar (convert_cell pd df c v))
         (map_of row c)"
  by (induction row) (auto simp: with_call_records_def)

lemma normalization_preserves_order:
  assumes "xs \<noteq> []" and "list_all well_formed_record xs"
  shows "\<exists>df. normalize_call_records pd (map items xs) = Inr df
            \<and> length df = length xs
            \<and> (\<forall>i<length xs. df ! i = master_record pd xs (xs ! i)
                  \<and> map_of (df ! i) ''callRecords''
                      = Some (Frame (map (\<lambda>r. normalize_record pd (items r)) (call_records (xs ! i)))))"
proof -
  have cell: "map_of (master_record pd xs x) ''callRecords''
      = Some (Frame (map (\<lambda>r. normalize_record pd (items r)) (call_records x)))"
    if "well_formed_record x" for x
  proof -
    from that have "''callRecords'' \<in> set (map fst (items x))" by (rule well_formed_record_row(2))
    then obtain v where "map_of (items x) ''callRecords'' = Some v"
      by (cases "map_of (items x) ''callRecords''") (auto simp: map_of_eq_None_iff)
    then show ?thesis
      by (simp add: master_record_def map_of_with_call_records)
  qed
  have run: "normalize_call_records pd (map items xs) = Inr (map (master_record pd xs) xs)"
    using assms by (rule normalize_well_formed)
  have "\<forall>i<length xs. map (master_record pd xs) xs ! i = master_record pd xs (xs ! i)
          \<and> map_of (map (master_record pd xs) xs ! i) ''callRecords''
              = Some (Frame (map (\<lambda>r. normalize_record pd (items r)) (call_records (xs ! i))))"
    using assms(2) cell by (simp add: list_all_length)
  with run show ?thesis by simp
qed

text \<open>After a malformed body, a retry that is served a plain feed with a master succeeds.\<close>

lemma retry_after_malformed_body:
  assumes "cache s url = None" and "w (clock s) url = Response status Malformed"
  shows "\<exists>s1. get_or_load pd w url s = (Inl JSONDecodeError, s1)
            \<and> cache s1 = cache s
            \<and> (\<forall>w' status1 status2 data xs.
                  w' (clock s1) url = Response status1 (Decoded data)
                  \<and> w' (Suc (clock s1)) url = Response status2 (Decoded (TList xs))
                  \<and> ok_status status2 \<and> xs \<noteq> [] \<and> list_all well_formed_record xs
                  \<and> plain (TList xs)
                  \<longrightarrow> (\<exists>s2. get_or_load pd w' url s1
                              = (Inr (map (master_record pd xs) xs @ [orphaned_row], data), s2)
                          \<and> cache s2 url
                              = Some (map (master_record pd xs) xs @ [orphaned_row], data)))"
proof -
  define s1 where "s1 = s\<lparr>clock := Suc (clock s), loads := (loads s)(url := Suc (loads s url))\<rparr>"
  from assms have run: "get_or_load pd w url s = (Inl JSONDecodeError, s1)"
    by (simp add: get_or_load_miss load_data_malformed s1_def)
  have c: "cache s1 = cache s" by (simp add: s1_def)
  with assms(1) have miss: "cache s1 url = None" by simp
  have retry: "\<exists>s2. get_or_load pd w' url s1
                  = (Inr (map (master_record pd xs) xs @ [orphaned_row], data), s2)
              \<and> cache s2 url = Some (map (master_record pd xs) xs @ [orphaned_row], data)"
    if "w' (clock s1) url = Response status1 (Decoded data)"
      and "w' (Suc (clock s1)) url = Response status2 (Decoded (TList xs))"
      and "ok_status status2" and "xs \<noteq> []" and "list_all well_formed_record xs"
      and "plain (TList xs)"
    for w' status1 status2 data xs
  proof -
    from that have "load_data pd w' url (clock s1)
        = (Inr (map (master_record pd xs) xs @ [orphaned_row], data), Suc (Suc (clock s1)))"
      by (rule load_data_well_formed)
    with miss show ?thesis by (simp add: get_or_load_miss)
  qed
  from run c retry show ?thesis by blast
qed

section \<open>The claims\<close>

subsection \<open>C1: the identity of the orphan master\<close>

text \<open>
  Claim C1. The orphan master has the identity fields \<^verbatim>\<open>name="Orphaned Record"\<close>,
  \<^verbatim>\<open>account="N/A"\<close>, \<^verbatim>\<open>calls=0\<close>, \<^verbatim>\<open>minutes=0\<close> and the two fixed detail records, also in
  the row payload of the grid configuration. The program writes the orphan twice. The row
  that \<^verbatim>\<open>load_data\<close> appends to the frame has these fields. The row that
  \<^verbatim>\<open>build_grid_options\<close> appends to \<^verbatim>\<open>rowData\<close> has the same calls, minutes and detail
  records, but the name \<^verbatim>\<open>"Orphans"\<close> and the account \<^verbatim>\<open>0\<close>: already for the empty list
  \<^verbatim>\<open>data_json = []\<close> the payload is that one row.
\<close>

theorem grid_orphan_row_identity_differs:
  "(\<exists>g h'. build_grid_options [OList []] (VRef 0) = (Inr g, h')
          \<and> repr h' g (grid_options_tree []))
   \<and> tree_get (grid_options_tree []) ''rowData'' = Some (TList [grid_orphan_row])
   \<and> tree_get grid_orphan_row ''name'' = Some (TStr ''Orphans'')
   \<and> tree_get grid_orphan_row ''account'' = Some (TInt 0)
   \<and> tree_get grid_orphan_row ''calls'' = Some (TInt 0)
   \<and> tree_get grid_orphan_row ''minutes'' = Some (TInt 0)
   \<and> tree_get grid_orphan_row ''callRecords'' = Some (TList grid_orphan_details)
   \<and> map_of orphaned_row ''name'' = Some (Scalar (TStr ''Orphaned Record''))
   \<and> map_of orphaned_row ''account'' = Some (Scalar (TStr ''N/A''))
   \<and> map_of orphaned_row ''calls'' = Some (Scalar (TInt 0))
   \<and> map_of orphaned_row ''minutes'' = Some (Scalar (TInt 0))
   \<and> map_of orphaned_row ''callRecords'' = Some (Frame orphaned_details)
   \<and> map TDict orphaned_details = grid_orphan_details"
proof -
  have d: "obj_at [OList []] (VRef 0) = Some (OList [])" by simp
  from build_grid_options_list[OF d] obtain g e where
    "build_grid_options [OList []] (VRef 0) = (Inr g, [OList []] @ e)"
    and "\<forall>ts. repr_list [OList []] [] ts \<longrightarrow> repr ([OList []] @ e) g (grid_options_tree ts)"
    by blast
  then have run: "\<exists>g h'. build_grid_options [OList []] (VRef 0) = (Inr g, h')
          \<and> repr h' g (grid_options_tree [])"
    using repr_Nil by blast
  have rest: "tree_get (grid_options_tree []) ''rowData'' = Some (TList [grid_orphan_row])
   \<and> tree_get grid_orphan_row ''name'' = Some (TStr ''Orphans'')
   \<and> tree_get grid_orphan_row ''account'' = Some (TInt 0)
   \<and> tree_get grid_orphan_row ''calls'' = Some (TInt 0)
   \<and> tree_get grid_orphan_row ''minutes'' = Some (TInt 0)
   \<and> tree_get grid_orphan_row ''callRecords'' = Some (TList grid_orphan_details)"
    by (simp add: grid_options_tree_def grid_orphan_row_def)
  have loader: "map_of orphaned_row ''name'' = Some (Scalar (TStr ''Orphaned Record''))
   \<and> map_of orphaned_row ''account'' = Some (Scalar (TStr ''N/A''))
   \<and> map_of orphaned_row ''calls'' = Some (Scalar (TInt 0))
   \<and> map_of orphaned_row ''minutes'' = Some (Scalar (TInt 0))
   \<and> map_of orphaned_row ''callRecords'' = Some (Frame orphaned_details)"
    by (simp add: orphaned_row_def)
  have same: "map TDict orphaned_details = grid_orphan_details"
    by (simp add: orphaned_details_def grid_orphan_details_def)
  from run rest loader same show ?thesis by blast
qed

subsection \<open>C2: exactly one orphan master is appended\<close>

text \<open>
  Claim C2. Injecting the orphan yields one master more than the input has: the input's
  masters come first, unchanged and in order, so exactly one master is synthetic; it is
  the last element, and its details are the fixed sequence of the two records
  \<^verbatim>\<open>orphan1\<close> (outbound) and \<^verbatim>\<open>orphan2\<close> (inbound). In every load that returns, the frame is
  the normalized feed, row for row, followed by that one master, never by two. The
  \<^verbatim>\<open>rowData\<close> list of \<^verbatim>\<open>build_grid_options\<close> is the argument's content followed by one
  orphan row with the same two records.
\<close>

theorem orphan_injection_appends_exactly_one:
  "length (concat_frames df orphaned_records) = length df + 1
   \<and> take (length df) (concat_frames df orphaned_records) = df
   \<and> last (concat_frames df orphaned_records) = orphaned_row
   \<and> map_of orphaned_row ''callRecords'' = Some (Frame
        [[(''callId'', TStr ''orphan1''), (''direction'', TStr ''outbound''),
          (''number'', TStr ''1234567890''), (''duration'', TInt 0),
          (''switchCode'', TStr ''N/A'')],
         [(''callId'', TStr ''orphan2''), (''direction'', TStr ''inbound''),
          (''number'', TStr ''0987654321''), (''duration'', TInt 0),
          (''switchCode'', TStr ''N/A'')]])
   \<and> (load_data pd w url t = (Inr (loaded, data), t') \<longrightarrow>
        (\<exists>feed masters.
            read_json pd w url (Suc t) = (Inr feed, t')
          \<and> normalize_call_records pd feed = Inr masters
          \<and> length masters = length feed
          \<and> loaded = concat_frames masters orphaned_records
          \<and> length loaded = length feed + 1
          \<and> take (length feed) loaded = masters
          \<and> last loaded = orphaned_row))
   \<and> (repr h data_json (TList rows) \<longrightarrow>
        (\<exists>g h' rowData.
            build_grid_options h data_json = (Inr g, h')
          \<and> getitem h' g ''rowData'' = Some rowData
          \<and> repr h' rowData (TList (rows @ [grid_orphan_row]))))
   \<and> length (rows @ [grid_orphan_row]) = length rows + 1
   \<and> take (length rows) (rows @ [grid_orphan_row]) = rows
   \<and> last (rows @ [grid_orphan_row]) = grid_orphan_row
   \<and> tree_get grid_orphan_row ''callRecords'' = Some (TList
        [TDict [(''callId'', TStr ''orphan1''), (''direction'', TStr ''outbound''),
                (''number'', TStr ''1234567890''), (''duration'', TInt 0),
                (''switchCode'', TStr ''N/A'')],
         TDict [(''callId'', TStr ''orphan2''), (''direction'', TStr ''inbound''),
                (''number'', TStr ''0987654321''), (''duration'', TInt 0),
                (''switchCode'', TStr ''N/A'')]])"
proof -
  have frame: "length (concat_frames df orphaned_records) = length df + 1
     \<and> take (length df) (concat_frames df orphaned_records) = df
     \<and> last (concat_frames df orphaned_records) = orphaned_row"
    by (simp add: concat_frames_def orphaned_records_def)
  have details: "map_of orphaned_row ''callRecords'' = Some (Frame
        [[(''callId'', TStr ''orphan1''), (''direction'', TStr ''outbound''),
          (''number'', TStr ''1234567890''), (''duration'', TInt 0),
          (''switchCode'', TStr ''N/A'')],
         [(''callId'', TStr ''orphan2''), (''direction'', TStr ''inbound''),
          (''number'', TStr ''0987654321''), (''duration'', TInt 0),
          (''switchCode'', TStr ''N/A'')]])"
    by (simp add: orphaned_row_def orphaned_details_def)
  have load: "\<exists>feed masters.
            read_json pd w url (Suc t) = (Inr feed, t')
          \<and> normalize_call_records pd feed = Inr masters
          \<and> length masters = length feed
          \<and> loaded = concat_frames masters orphaned_records
          \<and> length loaded = length feed + 1
          \<and> take (length feed) loaded = masters
          \<and> last loaded = orphaned_row"
    if l: "load_data pd w url t = (Inr (loaded, data), t')"
  proof -
    from load_data_success[OF l] obtain feed masters where
      "read_json pd w url (Suc t) = (Inr feed, t')"
      and "normalize_call_records pd feed = Inr masters"
      and "length masters = length feed"
      and "loaded = masters @ [orphaned_row]" by blast
    then show ?thesis by (auto simp: concat_frames_def orphaned_records_def)
  qed
  have grid: "\<exists>g h' rowData.
            build_grid_options h data_json = (Inr g, h')
          \<and> getitem h' g ''rowData'' = Some rowData
          \<and> repr h' rowData (TList (rows @ [grid_orphan_row]))"
    if r: "repr h data_json (TList rows)"
  proof -
    from r obtain vs where d: "obj_at h data_json = Some (OList vs)"
      and vs: "repr_list h vs rows" by (auto elim: repr_TListE)
    from build_grid_options_list[OF d] obtain g e rd orow where
      run: "build_grid_options h data_json = (Inr g, h @ e)"
      and gi: "getitem (h @ e) g ''rowData'' = Some (VRef rd)"
      and rdo: "obj_at (h @ e) (VRef rd) = Some (OList (vs @ [orow]))"
      and orow: "repr (h @ e) orow grid_orphan_row" by blast
    from vs have "repr_list (h @ e) vs rows" by (rule repr_append)
    then have "repr_list (h @ e) (vs @ [orow]) (rows @ [grid_orphan_row])"
      by (intro repr_list_append repr_Cons repr_Nil orow)
    with rdo have "repr (h @ e) (VRef rd) (TList (rows @ [grid_orphan_row]))"
      by (rule repr_List)
    with run gi show ?thesis by blast
  qed
  have rows: "length (rows @ [grid_orphan_row]) = length rows + 1
     \<and> take (length rows) (rows @ [grid_orphan_row]) = rows
     \<and> last (rows @ [grid_orphan_row]) = grid_orphan_row"
    by simp
  have gdetails: "tree_get grid_orphan_row ''callRecords'' = Some (TList
        [TDict [(''callId'', TStr ''orphan1''), (''direction'', TStr ''outbound''),
                (''number'', TStr ''1234567890''), (''duration'', TInt 0),
                (''switchCode'', TStr ''N/A'')],
         TDict [(''callId'', TStr ''orphan2''), (''direction'', TStr ''inbound''),
                (''number'', TStr ''0987654321''), (''duration'', TInt 0),
                (''switchCode'', TStr ''N/A'')]])"
    by (simp add: grid_orphan_row_def grid_orphan_details_def)
  from frame details load grid rows gdetails show ?thesis by blast
qed

theorem orphan_injection_appends_exactly_one_witness:
  "load_data flat_pandas sample_world ''u'' 0 =
     (Inr ([master_record flat_pandas [sample_master] sample_master, orphaned_row],
           TList [sample_master]), 2)
   \<and> (\<exists>feed masters.
          read_json flat_pandas sample_world ''u'' (Suc 0) = (Inr feed, 2)
        \<and> normalize_call_records flat_pandas feed = Inr masters
        \<and> length masters = length feed
        \<and> [master_record flat_pandas [sample_master] sample_master, orphaned_row]
            = concat_frames masters orphaned_records
        \<and> length [master_record flat_pandas [sample_master] sample_master, orphaned_row]
            = length feed + 1)
   \<and> repr [ODict [(''name'', VStr ''Ada'')], OList [VRef 0]] (VRef 1)
        (TList [TDict [(''name'', TStr ''Ada'')]])
   \<and> (\<exists>g h' rowData.
          build_grid_options [ODict [(''name'', VStr ''Ada'')], OList [VRef 0]] (VRef 1)
            = (Inr g, h')
        \<and> getitem h' g ''rowData'' = Some rowData
        \<and> repr h' rowData (TList ([TDict [(''name'', TStr ''Ada'')]] @ [grid_orphan_row])))
   \<and> length (concat_frames [master_record flat_pandas [sample_master] sample_master]
        orphaned_records) = 2"
proof -
  have l: "load_data flat_pandas sample_world ''u'' 0 =
     (Inr ([master_record flat_pandas [sample_master] sample_master, orphaned_row],
           TList [sample_master]), 2)"
    using sample_load[of flat_pandas "''u''" 0] by (simp add: numeral_2_eq_2)
  note t = orphan_injection_appends_exactly_one[
      of "[master_record flat_pandas [sample_master] sample_master]" flat_pandas sample_world
         "''u''" 0
         "[master_record flat_pandas [sample_master] sample_master, orphaned_row]"
         "TList [sample_master]" 2
         "[ODict [(''name'', VStr ''Ada'')], OList [VRef 0]]" "VRef 1"
         "[TDict [(''name'', TStr ''Ada'')]]"]
  from t l have a: "\<exists>feed masters.
          read_json flat_pandas sample_world ''u'' (Suc 0) = (Inr feed, 2)
        \<and> normalize_call_records flat_pandas feed = Inr masters
        \<and> length masters = length feed
        \<and> [master_record flat_pandas [sample_master] sample_master, orphaned_row]
            = concat_frames masters orphaned_records
        \<and> length [master_record flat_pandas [sample_master] sample_master, orphaned_row]
            = length feed + 1" by blast
  from t small_store_repr have b: "\<exists>g h' rowData.
          build_grid_options [ODict [(''name'', VStr ''Ada'')], OList [VRef 0]] (VRef 1)
            = (Inr g, h')
        \<and> getitem h' g ''rowData'' = Some rowData
        \<and> repr h' rowData (TList ([TDict [(''name'', TStr ''Ada'')]] @ [grid_orphan_row]))"
    by blast
  from t have c: "length (concat_frames [master_record flat_pandas [sample_master] sample_master]
        orphaned_records) = 2" by simp
  from l a small_store_repr b c show ?thesis by blast
qed

subsection \<open>C3: repeated loads of one URL\<close>




subsection \<open>C4: a retry after a malformed body\<close>

text \<open>
  Claim C4. When the response body is malformed JSON, the load fails with the decoder's
  exception (\<^verbatim>\<open>JSONDecodeError\<close>) and the cache stores no entry for the URL, so a later call
  with a valid response succeeds. The first two parts hold, and a retry that is served a
  feed with a master succeeds (\<open>retry_after_malformed_body\<close>). A retry that is served the
  valid body \<^verbatim>\<open>[]\<close> does not succeed: it raises \<^verbatim>\<open>KeyError\<close>, by the defect of C6.
\<close>

theorem retry_with_empty_feed_fails:
  "fst (get_or_load_seq pd empty_after_malformed [url, url] new_session)
     = [Inl JSONDecodeError, Inl (KeyError ''callRecords'')]
   \<and> cache (snd (get_or_load_seq pd empty_after_malformed [url, url] new_session)) url = None"
proof -
  define s1 where "s1 = new_session\<lparr>clock := Suc 0, loads := (loads new_session)(url := Suc 0)\<rparr>"
  have first: "get_or_load pd empty_after_malformed url new_session = (Inl JSONDecodeError, s1)"
    using load_data_malformed[of empty_after_malformed 0 url 200 pd]
    by (simp add: get_or_load_miss new_session_def empty_after_malformed_def s1_def)
  have miss: "cache s1 url = None" and clock: "clock s1 = Suc 0"
    by (simp_all add: s1_def new_session_def)
  have l2: "load_data pd empty_after_malformed url (Suc 0)
      = (Inl (KeyError ''callRecords''), Suc (Suc (Suc 0)))"
    by (rule load_data_empty_array[where status=200 and status'=200 and data="TList []"])
       (simp_all add: empty_after_malformed_def ok_status_def)
  obtain r s2 where second: "get_or_load pd empty_after_malformed url s1 = (r, s2)"
    by (cases "get_or_load pd empty_after_malformed url s1")
  with l2 miss clock have r: "r = Inl (KeyError ''callRecords'')" and c2: "cache s2 = cache s1"
    by (auto simp: get_or_load_miss)
  have "get_or_load_seq pd empty_after_malformed [url, url] new_session
          = ([Inl JSONDecodeError, Inl (KeyError ''callRecords'')], s2)"
    by (simp add: first second r)
  with c2 miss show ?thesis by simp
qed

subsection \<open>C5: failed fetches\<close>




subsection \<open>C6: normalization and the empty feed\<close>

text \<open>
  Claim C6. Normalization preserves the number and the order of the masters and of each
  master's call records. For a feed with at least one master this is
  \<open>normalization_preserves_order\<close> above. For the empty array, which is a well-formed
  feed with no master, the frame has no column \<^verbatim>\<open>callRecords\<close> and the load raises
  \<^verbatim>\<open>KeyError\<close> instead of returning the empty dataset with its orphan.
\<close>

theorem empty_array_fails_to_load:
  "load_data pd (\<lambda>k u. Response 200 (Decoded (TList []))) url t
     = (Inl (KeyError ''callRecords''), t + 2)
   \<and> frame_of pd (TList []) = Inr []
   \<and> normalize_call_records pd [] = Inl (KeyError ''callRecords'')"
proof -
  have "load_data pd (\<lambda>k u. Response 200 (Decoded (TList []))) url t
     = (Inl (KeyError ''callRecords''), Suc (Suc t))"
    by (rule load_data_empty_array[where status=200 and status'=200])
       (simp_all add: ok_status_def)
  moreover have "frame_of pd (TList []) = Inr []" by (simp add: frame_of_def)
  moreover have "normalize_call_records pd [] = Inl (KeyError ''callRecords'')"
    by (simp add: normalize_call_records_def has_column_def)
  ultimately show ?thesis by simp
qed

subsection \<open>C7: a master without \<^verbatim>\<open>callRecords\<close>\<close>

text \<open>
  When one master has \<^verbatim>\<open>callRecords\<close> and a later one lacks it, the column exists, the
  missing cell is NaN, and \<^verbatim>\<open>json_normalize\<close> raises \<^verbatim>\<open>NotImplementedError\<close>, which does
  not name the key.
\<close>

theorem missing_call_records_not_named:
  "lacks_call_records bare_master
   \<and> normalize_call_records flat_pandas (map items [sample_master, bare_master])
       = Inl NotImplementedError
   \<and> load_data flat_pandas
         (\<lambda>k url. Response 200 (Decoded (TList [sample_master, bare_master]))) ''u'' 0
       = (Inl NotImplementedError, 2)"
proof -
  have l: "lacks_call_records bare_master"
    by (simp add: lacks_call_records_def bare_master_def)
  have n: "normalize_call_records flat_pandas (map items ([sample_master] @ bare_master # []))
       = Inl NotImplementedError"
    by (rule normalize_first_missing) (simp_all add: sample_master_well_formed l)
  have d: "list_all is_dict [sample_master, bare_master]"
    by (simp add: sample_master_def bare_master_def)
  have "load_data flat_pandas
         (\<lambda>k url. Response 200 (Decoded (TList [sample_master, bare_master]))) ''u'' 0
       = (Inl NotImplementedError, Suc (Suc 0))"
  proof -
    have p: "plain (TList [sample_master, bare_master])"
      by (simp add: sample_master_def bare_master_def int64_def)
    have "read_json flat_pandas
            (\<lambda>k url. Response 200 (Decoded (TList [sample_master, bare_master]))) ''u'' (Suc 0)
          = (Inr (map items [sample_master, bare_master]), Suc (Suc 0))"
      by (rule read_json_plain_feed[where status=200, OF _ _ d p]) (simp_all add: ok_status_def)
    with n show ?thesis
      by (simp add: load_data_decoded[where status=200 and data="TList [sample_master, bare_master]"])
  qed
  with l n show ?thesis by (simp add: numeral_2_eq_2)
qed

text \<open>
  Claim C7, as amended. When some top-level object of the feed lacks \<^verbatim>\<open>callRecords\<close>,
  normalization fails and the load produces no dataset; when no object of the feed has the
  key, the exception is \<^verbatim>\<open>KeyError\<close> and names \<^verbatim>\<open>callRecords\<close>.
\<close>

theorem missing_call_records_fails:
  assumes "x \<in> set xs" and "lacks_call_records x"
  shows "(\<exists>e. normalize_call_records pd (map items xs) = Inl e)
       \<and> ((\<forall>y\<in>set xs. lacks_call_records y) \<longrightarrow>
            normalize_call_records pd (map items xs) = Inl (KeyError ''callRecords''))
       \<and> (list_all is_dict xs \<and> w (Suc t) url = Response status (Decoded (TList xs))
            \<and> ok_status status \<longrightarrow> (\<exists>e t'. load_data pd w url t = (Inl e, t')))"
proof -
  from assms have a: "\<exists>e. normalize_call_records pd (map items xs) = Inl e"
    by (rule normalize_missing_fails)
  have b: "(\<forall>y\<in>set xs. lacks_call_records y) \<longrightarrow>
            normalize_call_records pd (map items xs) = Inl (KeyError ''callRecords'')"
    by (simp add: normalize_no_column)
  have c: "\<exists>e t'. load_data pd w url t = (Inl e, t')"
    if d: "list_all is_dict xs" and r: "w (Suc t) url = Response status (Decoded (TList xs))"
      and ok: "ok_status status"
  proof (cases "w t url")
    case NetworkFailure
    then show ?thesis by (simp add: load_data_network_failure)
  next
    case (Response st b)
    show ?thesis
    proof (cases b)
      case Malformed
      with Response show ?thesis by (simp add: load_data_malformed)
    next
      case (Decoded data)
      obtain res t2 where rj: "read_json pd w url (Suc t) = (res, t2)"
        by (cases "read_json pd w url (Suc t)")
      show ?thesis
      proof (cases res)
        case (Inl e)
        with rj Response Decoded show ?thesis by (simp add: load_data_decoded)
      next
        case (Inr df)
        with rj have "read_json pd w url (Suc t) = (Inr df, t2)" by simp
        from read_json_missing_fails[OF d assms this r]
        obtain e where "normalize_call_records pd df = Inl e" by blast
        with rj Inr Response Decoded show ?thesis by (simp add: load_data_decoded)
      qed
    qed
  qed
  from a b c show ?thesis by blast
qed

theorem missing_call_records_fails_witness:
  "bare_master \<in> set [bare_master] \<and> lacks_call_records bare_master
   \<and> normalize_call_records flat_pandas (map items [bare_master]) = Inl (KeyError ''callRecords'')
   \<and> list_all is_dict [bare_master]
   \<and> ok_status 200
   \<and> (\<exists>e t'. load_data flat_pandas (\<lambda>k url. Response 200 (Decoded (TList [bare_master]))) ''u'' 0
               = (Inl e, t'))"
proof -
  have m: "bare_master \<in> set [bare_master]" by simp
  have l: "lacks_call_records bare_master"
    by (simp add: lacks_call_records_def bare_master_def)
  have all: "\<forall>y\<in>set [bare_master]. lacks_call_records y" using l by simp
  have d: "list_all is_dict [bare_master]" by (simp add: bare_master_def)
  have ok: "ok_status 200" by (simp add: ok_status_def)
  note t = missing_call_records_fails[OF m l, of flat_pandas
      "\<lambda>k url. Response 200 (Decoded (TList [bare_master]))" 0 "''u''" 200]
  from t all have k: "normalize_call_records flat_pandas (map items [bare_master])
      = Inl (KeyError ''callRecords'')" by blast
  from t d ok have f: "\<exists>e t'. load_data flat_pandas
      (\<lambda>k url. Response 200 (Decoded (TList [bare_master]))) ''u'' 0 = (Inl e, t')" by simp
  from m l k d ok f show ?thesis by simp
qed

subsection \<open>C8: the value formatters\<close>

text \<open>
  The separator is the host's: in a host whose locale is \<^verbatim>\<open>de-DE\<close> the formatters show
  1234 as \<^verbatim>\<open>1.234m\<close> and 5000 as \<^verbatim>\<open>5.000s\<close>.
\<close>

theorem host_locale_decides_separator:
  "eval_formatter DeDE minutes_formatter 1234 = Some ''1.234m''
   \<and> eval_formatter DeDE duration_formatter 5000 = Some ''5.000s''"
proof -
  have g1: "grouped ''.'' 1234 = ''1.234''" by (simp add: digit_def)
  have g2: "grouped ''.'' 5000 = ''5.000''" by (simp add: digit_def)
  have e1: "eval_formatter DeDE minutes_formatter 1234 = Some ''1.234m''"
    by (simp add: eval_formatter_def minutes_formatter_def toLocaleString_def safe_integer_def g1
          del: grouped.simps)
  have e2: "eval_formatter DeDE duration_formatter 5000 = Some ''5.000s''"
    by (simp add: eval_formatter_def duration_formatter_def toLocaleString_def safe_integer_def g2
          del: grouped.simps)
  from e1 e2 show ?thesis by simp
qed

text \<open>
  Claim C8, as amended. The formatter of the master column \<^verbatim>\<open>minutes\<close> is the expression
  \<^verbatim>\<open>x.toLocaleString() + 'm'\<close> and that of the detail column \<^verbatim>\<open>duration\<close> is
  \<^verbatim>\<open>x.toLocaleString() + 's'\<close>. What they show depends on the host's locale: in a host
  whose locale is \<^verbatim>\<open>en-US\<close> the values 1234 and 5000 are shown as \<^verbatim>\<open>1,234m\<close> and
  \<^verbatim>\<open>5,000s\<close>, and in each modelled host as the digits grouped by that host's separator,
  followed by the unit suffix.
\<close>

theorem value_formatters_group_thousands:
  "column_formatter master_column_defs ''minutes'' = Some minutes_formatter
   \<and> column_formatter detail_column_defs ''duration'' = Some duration_formatter
   \<and> eval_formatter host minutes_formatter 1234 = Some (''1'' @ group_separator host @ ''234m'')
   \<and> eval_formatter host duration_formatter 5000 = Some (''5'' @ group_separator host @ ''000s'')
   \<and> eval_formatter EnUS minutes_formatter 1234 = Some ''1,234m''
   \<and> eval_formatter EnUS duration_formatter 5000 = Some ''5,000s''"
proof -
  have m: "column_formatter master_column_defs ''minutes'' = Some minutes_formatter"
    by (simp add: master_column_defs_def)
  have d: "column_formatter detail_column_defs ''duration'' = Some duration_formatter"
    by (simp add: detail_column_defs_def)
  have g1: "grouped sep 1234 = ''1'' @ sep @ ''234''" for sep by (simp add: digit_def)
  have g2: "grouped sep 5000 = ''5'' @ sep @ ''000''" for sep by (simp add: digit_def)
  have e1: "eval_formatter h minutes_formatter 1234 = Some (''1'' @ group_separator h @ ''234m'')"
    for h
    by (simp add: eval_formatter_def minutes_formatter_def toLocaleString_def safe_integer_def g1
          del: grouped.simps)
  have e2: "eval_formatter h duration_formatter 5000 = Some (''5'' @ group_separator h @ ''000s'')"
    for h
    by (simp add: eval_formatter_def duration_formatter_def toLocaleString_def safe_integer_def g2
          del: grouped.simps)
  from m d e1[of host] e2[of host] e1[of EnUS] e2[of EnUS] show ?thesis by simp
qed

subsection \<open>C9: the grid configuration is a function of the dataset\<close>

text \<open>
  Claim C9. On a list, \<^verbatim>\<open>build_grid_options\<close> never raises; it only creates objects and
  changes none that exists; two calls in sequence on the same list return dictionaries of
  the same content, and so does a call on any other list of the same content in any other
  store: the content is \<open>grid_options_tree\<close> of the list's content.
\<close>

theorem build_grid_options_deterministic:
  assumes "repr h data_json (TList rows)"
  shows "\<exists>g1 e1 g2 e2.
           build_grid_options h data_json = (Inr g1, h @ e1)
         \<and> build_grid_options (h @ e1) data_json = (Inr g2, h @ e1 @ e2)
         \<and> repr (h @ e1 @ e2) g1 (grid_options_tree rows)
         \<and> repr (h @ e1 @ e2) g2 (grid_options_tree rows)
         \<and> (\<forall>t1 t2. repr (h @ e1 @ e2) g1 t1 \<and> repr (h @ e1 @ e2) g2 t2 \<longrightarrow> t1 = t2)
         \<and> (\<forall>h' d'. repr h' d' (TList rows) \<longrightarrow>
               (\<exists>g' e'. build_grid_options h' d' = (Inr g', h' @ e')
                        \<and> repr (h' @ e') g' (grid_options_tree rows)))"
proof -
  have one: "\<exists>g e. build_grid_options k d = (Inr g, k @ e) \<and> repr (k @ e) g (grid_options_tree rows)"
    if "repr k d (TList rows)" for k d
  proof -
    from that obtain vs where d: "obj_at k d = Some (OList vs)" and vs: "repr_list k vs rows"
      by (auto elim: repr_TListE)
    from build_grid_options_list[OF d] obtain g e where
      "build_grid_options k d = (Inr g, k @ e)"
      and "\<forall>ts. repr_list k vs ts \<longrightarrow> repr (k @ e) g (grid_options_tree ts)"
      by blast
    with vs show ?thesis by blast
  qed
  from one[OF assms] obtain g1 e1 where
    run1: "build_grid_options h data_json = (Inr g1, h @ e1)"
    and r1: "repr (h @ e1) g1 (grid_options_tree rows)" by blast
  from assms have "repr (h @ e1) data_json (TList rows)" by (rule repr_append)
  from one[OF this] obtain g2 e2 where
    run2: "build_grid_options (h @ e1) data_json = (Inr g2, h @ e1 @ e2)"
    and r2: "repr (h @ e1 @ e2) g2 (grid_options_tree rows)" by auto
  from r1 have r1': "repr (h @ e1 @ e2) g1 (grid_options_tree rows)"
    using repr_append(1)[of "h @ e1" g1 "grid_options_tree rows" e2] by simp
  have same: "\<forall>t1 t2. repr (h @ e1 @ e2) g1 t1 \<and> repr (h @ e1 @ e2) g2 t2 \<longrightarrow> t1 = t2"
    using r1' r2 by (blast dest: repr_unique(1))
  from run1 run2 r1' r2 same one show ?thesis by blast
qed

theorem build_grid_options_deterministic_witness:
  "repr [ODict [(''name'', VStr ''Ada'')], OList [VRef 0]] (VRef 1)
        (TList [TDict [(''name'', TStr ''Ada'')]])
   \<and> (\<exists>g1 e1 g2 e2.
        build_grid_options [ODict [(''name'', VStr ''Ada'')], OList [VRef 0]] (VRef 1)
          = (Inr g1, [ODict [(''name'', VStr ''Ada'')], OList [VRef 0]] @ e1)
      \<and> build_grid_options ([ODict [(''name'', VStr ''Ada'')], OList [VRef 0]] @ e1) (VRef 1)
          = (Inr g2, [ODict [(''name'', VStr ''Ada'')], OList [VRef 0]] @ e1 @ e2)
      \<and> repr ([ODict [(''name'', VStr ''Ada'')], OList [VRef 0]] @ e1 @ e2) g1
           (grid_options_tree [TDict [(''name'', TStr ''Ada'')]])
      \<and> repr ([ODict [(''name'', VStr ''Ada'')], OList [VRef 0]] @ e1 @ e2) g2
           (grid_options_tree [TDict [(''name'', TStr ''Ada'')]]))"
proof -
  have r: "repr [ODict [(''name'', VStr ''Ada'')], OList [VRef 0]] (VRef 1)
        (TList [TDict [(''name'', TStr ''Ada'')]])"
    by (rule repr_List[where vs="[VRef 0]"], simp,
        rule repr_Cons, rule repr_Dict[where kvs="[(''name'', VStr ''Ada'')]"], simp,
        intro repr_ICons repr_INil repr_Str, rule repr_Nil)
  from build_grid_options_deterministic[OF r] r show ?thesis by blast
qed

subsection \<open>C10: the argument is left unchanged\<close>

text \<open>
  Claim C10. \<^verbatim>\<open>build_grid_options\<close> leaves its argument unchanged: every object that
  existed before the call, the list \<^verbatim>\<open>data_json\<close> among them, is the same afterwards;
  \<^verbatim>\<open>rowData\<close> is a new list object holding the argument's elements and the orphan row.
  After any number of builds on the same list, the list still has its elements and the
  next build's \<^verbatim>\<open>rowData\<close> has exactly one orphan row more than the list.
\<close>

theorem build_grid_options_leaves_argument:
  assumes "obj_at h data_json = Some (OList xs)"
  shows "obj_at (snd (build_grid_options h data_json)) data_json = Some (OList xs)
       \<and> (\<forall>p. p < length h \<longrightarrow> snd (build_grid_options h data_json) ! p = h ! p)
       \<and> obj_at (rebuild n h data_json) data_json = Some (OList xs)
       \<and> (\<exists>g h' rd orow.
             build_grid_options (rebuild n h data_json) data_json = (Inr g, h')
           \<and> getitem h' g ''rowData'' = Some (VRef rd)
           \<and> VRef rd \<noteq> data_json
           \<and> obj_at h' (VRef rd) = Some (OList (xs @ [orow]))
           \<and> repr h' orow grid_orphan_row
           \<and> obj_at h' data_json = Some (OList xs))"
proof -
  have a: "obj_at (snd (build_grid_options h data_json)) data_json = Some (OList xs)"
    using assms by (rule build_grid_options_frame(3))
  have b: "\<forall>p. p < length h \<longrightarrow> snd (build_grid_options h data_json) ! p = h ! p"
    by (simp add: build_grid_options_frame(1))
  define k where "k = rebuild n h data_json"
  have c: "obj_at k data_json = Some (OList xs)"
    unfolding k_def using assms by (rule rebuild_frame)
  from build_grid_options_list[OF c] obtain g e rd orow where
    run: "build_grid_options k data_json = (Inr g, k @ e)"
    and gi: "getitem (k @ e) g ''rowData'' = Some (VRef rd)"
    and fresh: "length k \<le> rd"
    and rdo: "obj_at (k @ e) (VRef rd) = Some (OList (xs @ [orow]))"
    and orow: "repr (k @ e) orow grid_orphan_row"
    by blast
  from c fresh have ne: "VRef rd \<noteq> data_json"
    by (cases data_json) (auto split: if_splits)
  from c have keep: "obj_at (k @ e) data_json = Some (OList xs)" by (rule obj_at_append)
  from run gi ne rdo orow keep have
    "\<exists>g h' rd orow.
             build_grid_options k data_json = (Inr g, h')
           \<and> getitem h' g ''rowData'' = Some (VRef rd)
           \<and> VRef rd \<noteq> data_json
           \<and> obj_at h' (VRef rd) = Some (OList (xs @ [orow]))
           \<and> repr h' orow grid_orphan_row
           \<and> obj_at h' data_json = Some (OList xs)" by blast
  with a b c show ?thesis unfolding k_def by blast
qed

theorem build_grid_options_leaves_argument_witness:
  "obj_at [ODict [(''name'', VStr ''Ada'')], OList [VRef 0]] (VRef 1) = Some (OList [VRef 0])
   \<and> obj_at (snd (build_grid_options [ODict [(''name'', VStr ''Ada'')], OList [VRef 0]] (VRef 1)))
         (VRef 1) = Some (OList [VRef 0])
   \<and> obj_at (rebuild 3 [ODict [(''name'', VStr ''Ada'')], OList [VRef 0]] (VRef 1)) (VRef 1)
        = Some (OList [VRef 0])
   \<and> (\<exists>g h' rd orow.
         build_grid_options (rebuild 3 [ODict [(''name'', VStr ''Ada'')], OList [VRef 0]] (VRef 1))
           (VRef 1) = (Inr g, h')
       \<and> getitem h' g ''rowData'' = Some (VRef rd)
       \<and> VRef rd \<noteq> VRef 1
       \<and> obj_at h' (VRef rd) = Some (OList ([VRef 0] @ [orow]))
       \<and> repr h' orow grid_orphan_row
       \<and> obj_at h' (VRef 1) = Some (OList [VRef 0]))"
proof -
  have d: "obj_at [ODict [(''name'', VStr ''Ada'')], OList [VRef 0]] (VRef 1) = Some (OList [VRef 0])"
    by simp
  from build_grid_options_leaves_argument[OF d, of 3] d show ?thesis by blast
qed

end
